theory Spec2Isabelle
  imports Complex_Main
begin

section \<open>Tensor scalars\<close>

text \<open>
  The planner of \<^verbatim>\<open>src/planning/mm_planner.py\<close> computes on torch floating-point
  tensors. A scalar is modelled as a finite real number or one of the three special
  values of IEEE arithmetic. Finite arithmetic is exact: rounding, overflow of finite
  results and the sign of zero are not modelled. The special values follow IEEE 754,
  which is what torch computes: \<open>inf - inf\<close> and \<open>0 * inf\<close> are NaN, NaN is absorbing,
  every comparison with NaN is false.
\<close>

datatype fval = Fin real | PInf | NInf | NaN

fun is_finite :: "fval \<Rightarrow> bool" where
  "is_finite (Fin a) = True"
| "is_finite x = False"

fun is_nan :: "fval \<Rightarrow> bool" where
  "is_nan NaN = True"
| "is_nan x = False"

fun fneg :: "fval \<Rightarrow> fval" where
  "fneg (Fin a) = Fin (- a)"
| "fneg PInf = NInf"
| "fneg NInf = PInf"
| "fneg NaN = NaN"

fun fadd :: "fval \<Rightarrow> fval \<Rightarrow> fval" where
  "fadd NaN y = NaN"
| "fadd x NaN = NaN"
| "fadd (Fin a) (Fin b) = Fin (a + b)"
| "fadd PInf NInf = NaN"
| "fadd NInf PInf = NaN"
| "fadd PInf y = PInf"
| "fadd NInf y = NInf"
| "fadd (Fin a) y = y"

definition fsub :: "fval \<Rightarrow> fval \<Rightarrow> fval" where
  "fsub x y = fadd x (fneg y)"

text \<open>The sign of a non-NaN scalar: \<open>-1\<close>, \<open>0\<close> or \<open>1\<close>.\<close>

fun fsgn :: "fval \<Rightarrow> real" where
  "fsgn (Fin a) = sgn a"
| "fsgn PInf = 1"
| "fsgn NInf = - 1"
| "fsgn NaN = 0"

definition inf_of_sign :: "real \<Rightarrow> fval" where
  "inf_of_sign s = (if s = 0 then NaN else if 0 < s then PInf else NInf)"

fun fmul :: "fval \<Rightarrow> fval \<Rightarrow> fval" where
  "fmul NaN y = NaN"
| "fmul x NaN = NaN"
| "fmul (Fin a) (Fin b) = Fin (a * b)"
| "fmul x y = inf_of_sign (fsgn x * fsgn y)"

text \<open>
  Tensor division (\<^verbatim>\<open>1. / eta\<close>, \<^verbatim>\<open>self.actions /= self.u_scale\<close>): dividing by
  zero raises nothing, it gives an infinity or NaN.
\<close>

fun fdiv :: "fval \<Rightarrow> fval \<Rightarrow> fval" where
  "fdiv NaN y = NaN"
| "fdiv x NaN = NaN"
| "fdiv (Fin a) (Fin b) = (if b = 0 then inf_of_sign (sgn a) else Fin (a / b))"
| "fdiv (Fin a) y = Fin 0"
| "fdiv x (Fin b) = inf_of_sign (fsgn x * (if b < 0 then - 1 else 1))"
| "fdiv x y = NaN"

text \<open>
  \<^verbatim>\<open>torch.exp\<close> in the exact arithmetic of this section: no rounding and no range,
  so that the result on a finite value is neither zero nor infinite.
\<close>

fun fexp :: "fval \<Rightarrow> fval" where
  "fexp (Fin a) = Fin (exp a)"
| "fexp PInf = PInf"
| "fexp NInf = Fin 0"
| "fexp NaN = NaN"

text \<open>
  \<^verbatim>\<open>torch.exp\<close> on a tensor of a floating-point dtype has a range (round to
  nearest): a result at or below half the least positive value of the dtype,
  \<open>1 / 2 ^ 149\<close> in single and \<open>1 / 2 ^ 1074\<close> in double precision, is zero, and a
  result at or above the largest finite value plus half a unit in the last place is
  \<open>inf\<close>.
  In between, the rounding of the result is not modelled.
\<close>

datatype dtype = Float32 | Float64

fun underflow_bound :: "dtype \<Rightarrow> real" where
  "underflow_bound Float32 = 1 / 2 ^ 150"
| "underflow_bound Float64 = 1 / 2 ^ 1075"

fun overflow_bound :: "dtype \<Rightarrow> real" where
  "overflow_bound Float32 = (2 - 1 / 2 ^ 24) * 2 ^ 127"
| "overflow_bound Float64 = (2 - 1 / 2 ^ 53) * 2 ^ 1023"

fun fexp_fl :: "dtype \<Rightarrow> fval \<Rightarrow> fval" where
  "fexp_fl d (Fin a) = (if exp a \<le> underflow_bound d then Fin 0
                        else if overflow_bound d \<le> exp a then PInf else Fin (exp a))"
| "fexp_fl d PInf = PInf"
| "fexp_fl d NInf = Fin 0"
| "fexp_fl d NaN = NaN"

fun fabs :: "fval \<Rightarrow> fval" where
  "fabs (Fin a) = Fin \<bar>a\<bar>"
| "fabs PInf = PInf"
| "fabs NInf = PInf"
| "fabs NaN = NaN"

text \<open>The comparison \<open>x \<le> y\<close> of IEEE arithmetic: false as soon as one side is NaN.\<close>

fun fle :: "fval \<Rightarrow> fval \<Rightarrow> bool" where
  "fle NaN y = False"
| "fle x NaN = False"
| "fle NInf y = True"
| "fle x PInf = True"
| "fle (Fin a) (Fin b) = (a \<le> b)"
| "fle x y = False"

text \<open>\<^verbatim>\<open>torch.sum\<close> of a one-dimensional tensor; the sum of no element is zero.\<close>

definition fsum :: "fval list \<Rightarrow> fval" where
  "fsum xs = foldr fadd xs (Fin 0)"

text \<open>
  \<^verbatim>\<open>torch.min\<close> of a non-empty one-dimensional tensor: NaN if some element is NaN,
  the least element otherwise.
\<close>

definition fmin2 :: "fval \<Rightarrow> fval \<Rightarrow> fval" where
  "fmin2 x y = (if is_nan x \<or> is_nan y then NaN else if fle x y then x else y)"

definition fmax2 :: "fval \<Rightarrow> fval \<Rightarrow> fval" where
  "fmax2 x y = (if is_nan x \<or> is_nan y then NaN else if fle x y then y else x)"

fun fmin_list :: "fval list \<Rightarrow> fval" where
  "fmin_list [] = NaN"
| "fmin_list [x] = x"
| "fmin_list (x # xs) = fmin2 x (fmin_list xs)"

section \<open>Tensors and the controller\<close>

text \<open>
  A tensor of one, two or three dimensions is a list, a list of rows, or a list of
  matrices. The shapes are those of the docstrings: \<open>U\<close> is \<open>T \<times> nu\<close>, a noise
  sample is \<open>K \<times> T \<times> nu\<close>, a state batch is \<open>K \<times> nx\<close>.
\<close>

type_synonym vec = "fval list"
type_synonym mat = "fval list list"
type_synonym ten3 = "fval list list list"

datatype error = IndexError | RuntimeError | ZeroDivisionError

text \<open>The \<^verbatim>\<open>state\<close> argument of \<^verbatim>\<open>command\<close>: \<open>(nx)\<close> or \<open>(K x nx)\<close>.\<close>

datatype tensor = Vec vec | Mat mat

text \<open>What \<^verbatim>\<open>command\<close> returns first: one action, or \<open>u_per_command\<close> of them.\<close>

datatype action = Single vec | Several mat

text \<open>
  The fields of \<^verbatim>\<open>MPPI\<close>. The dynamics boundary \<open>F\<close> takes the state batch, the
  action batch and, when the controller passes it, the timestep. The trajectory cost
  is optional. The last eight fields are the results that a call leaves on the object.
\<close>

record mppi =
  K :: nat
  T :: nat
  nx :: nat
  nu :: nat
  lambda :: fval
  u_min :: "vec option"
  u_max :: "vec option"
  u_scale :: fval
  u_per_command :: nat
  noise_sigma_inv :: mat
  U :: mat
  u_init :: vec
  step_dependency :: bool
  F :: "mat \<Rightarrow> mat \<Rightarrow> nat option \<Rightarrow> mat"
  trajectory_cost :: "(ten3 \<Rightarrow> ten3 \<Rightarrow> vec) option"
  sample_null_action :: bool
  noise_abs_cost :: bool
  state :: "tensor option"
  cost_total :: "vec option"
  cost_total_non_zero :: "vec option"
  omega :: "vec option"
  states :: "ten3 option"
  actions :: "ten3 option"
  noise :: "ten3 option"
  perturbed_action :: "ten3 option"

subsection \<open>Elementwise operations\<close>

definition vadd :: "vec \<Rightarrow> vec \<Rightarrow> vec" where
  "vadd u v = map2 fadd u v"

definition vsub :: "vec \<Rightarrow> vec \<Rightarrow> vec" where
  "vsub u v = map2 fsub u v"

definition vscale :: "fval \<Rightarrow> vec \<Rightarrow> vec" where
  "vscale s v = map (fmul s) v"

text \<open>\<^verbatim>\<open>x[:, t]\<close> of a three-dimensional tensor.\<close>

definition slice_t :: "ten3 \<Rightarrow> nat \<Rightarrow> mat" where
  "slice_t x t = map (\<lambda>traj. traj ! t) x"

text \<open>\<^verbatim>\<open>torch.sum(m, dim=0)\<close> of a matrix with \<open>n\<close> columns.\<close>

definition sum_dim0 :: "nat \<Rightarrow> mat \<Rightarrow> vec" where
  "sum_dim0 n m = foldr vadd m (replicate n (Fin 0))"

text \<open>\<^verbatim>\<open>torch.stack(xs, dim=1)\<close> of a non-empty list of matrices with \<open>b\<close> rows each.\<close>

definition stack1 :: "nat \<Rightarrow> ten3 \<Rightarrow> ten3" where
  "stack1 b xs = map (\<lambda>k. map (\<lambda>m. m ! k) xs) [0..<b]"

text \<open>A row vector times a matrix: entry \<open>j\<close> is \<open>\<Sum>i. v[i] * m[i][j]\<close>.\<close>

definition vec_mat :: "vec \<Rightarrow> mat \<Rightarrow> vec" where
  "vec_mat v m = sum_dim0 (if m = [] then 0 else length (hd m)) (map2 vscale v m)"

text \<open>
  \<^verbatim>\<open>x.clamp(min=lo, max=hi)\<close> on one element, with tensor bounds: NaN as soon as the
  element or a given bound is NaN, otherwise \<open>min (max x lo) hi\<close>, so that the upper
  bound wins when the bounds are crossed.
\<close>

definition fclamp :: "fval option \<Rightarrow> fval option \<Rightarrow> fval \<Rightarrow> fval" where
  "fclamp lo hi x =
     (let y = (case lo of None \<Rightarrow> x | Some l \<Rightarrow> fmax2 x l)
      in case hi of None \<Rightarrow> y | Some h \<Rightarrow> fmin2 y h)"

text \<open>The bounds of one control dimension, broadcast along the last axis.\<close>

definition bound_at :: "vec option \<Rightarrow> nat \<Rightarrow> fval option" where
  "bound_at b j = map_option (\<lambda>v. v ! j) b"

definition clamp_vec :: "vec option \<Rightarrow> vec option \<Rightarrow> vec \<Rightarrow> vec" where
  "clamp_vec lo hi v = map (\<lambda>j. fclamp (bound_at lo j) (bound_at hi j) (v ! j)) [0..<length v]"

text \<open>
  \<^verbatim>\<open>torch.clamp\<close> raises a RuntimeError when neither bound is given.
\<close>

definition clamp :: "vec option \<Rightarrow> vec option \<Rightarrow> ten3 \<Rightarrow> error + ten3" where
  "clamp lo hi x =
     (if lo = None \<and> hi = None then Inl RuntimeError
      else Inr (map (map (clamp_vec lo hi)) x))"

section \<open>The planner\<close>

text \<open>\<^verbatim>\<open>_ensure_non_zero(cost, beta, factor)\<close>: \<^verbatim>\<open>torch.exp(-factor * (cost - beta))\<close>.\<close>

definition ensure_non_zero :: "vec \<Rightarrow> fval \<Rightarrow> fval \<Rightarrow> vec" where
  "ensure_non_zero cost beta factor = map (\<lambda>c. fexp (fmul (fneg factor) (fsub c beta))) cost"

text \<open>\<^verbatim>\<open>_ensure_non_zero(cost, beta, factor)\<close> on a tensor \<open>cost\<close> of dtype \<open>d\<close>.\<close>

definition ensure_non_zero_fl :: "dtype \<Rightarrow> vec \<Rightarrow> fval \<Rightarrow> fval \<Rightarrow> vec" where
  "ensure_non_zero_fl d cost beta factor =
     map (\<lambda>c. fexp_fl d (fmul (fneg factor) (fsub c beta))) cost"

text \<open>\<^verbatim>\<open>MPPI._dynamics\<close>: the timestep is passed only to step-dependent dynamics.\<close>

definition dynamics :: "mppi \<Rightarrow> mat \<Rightarrow> mat \<Rightarrow> nat \<Rightarrow> mat" where
  "dynamics c st u t = (if step_dependency c then F c st u (Some t) else F c st u None)"

text \<open>
  The rollout loop of \<^verbatim>\<open>_compute_total_cost_batch\<close>, over the timesteps still to
  run: the action is the perturbed action at \<open>t\<close> times \<open>u_scale\<close>, the state batch
  advances through the dynamics, and both are appended to the recorded lists.
\<close>

fun rollout_loop :: "mppi \<Rightarrow> ten3 \<Rightarrow> nat list \<Rightarrow> mat \<Rightarrow> ten3 \<Rightarrow> ten3 \<Rightarrow> ten3 \<times> ten3" where
  "rollout_loop c pa [] st ss acs = (ss, acs)"
| "rollout_loop c pa (t # ts) st ss acs =
     (let u = map (vscale (u_scale c)) (slice_t pa t);
          st' = dynamics c st u t
      in rollout_loop c pa ts st' (ss @ [st']) (acs @ [u]))"

text \<open>
  The state batch the rollouts start from: the stored state itself when its shape is
  \<open>(K, nx)\<close>, otherwise the stored state flattened and repeated \<open>K\<close> times.
\<close>

definition initial_batch :: "mppi \<Rightarrow> tensor \<Rightarrow> mat" where
  "initial_batch c st =
     (case st of
        Vec v \<Rightarrow> replicate (K c) v
      | Mat rows \<Rightarrow>
          if length rows = K c \<and> (\<forall>r \<in> set rows. length r = nx c) then rows
          else replicate (K c) (concat rows))"

text \<open>
  The perturbed actions before clamping: \<^verbatim>\<open>self.U + self.noise\<close>, broadcast over the
  samples, and \<^verbatim>\<open>self.perturbed_action[self.K - 1] = 0\<close> when a null action is
  sampled. With \<open>K = 0\<close> that index is out of range; the caller raises then.
\<close>

definition perturb :: "mppi \<Rightarrow> ten3 \<Rightarrow> ten3" where
  "perturb c sample =
     (let pa = map (\<lambda>traj. map2 vadd (U c) traj) sample
      in if sample_null_action c
         then pa[K c - 1 := map (map (\<lambda>x. Fin 0)) (pa ! (K c - 1))]
         else pa)"

text \<open>
  \<^verbatim>\<open>MPPI._compute_total_cost_batch\<close>. The fresh noise sample of shape \<open>K \<times> T \<times> nu\<close>
  is an argument. The result is the controller as the call leaves it, with the total
  costs or the exception raised. The trajectory cost receives the recorded actions
  before they are divided by \<open>u_scale\<close>.
\<close>

definition compute_total_cost_batch :: "mppi \<Rightarrow> ten3 \<Rightarrow> mppi \<times> (error + vec)" where
  "compute_total_cost_batch c0 sample =
     (let c1 = c0\<lparr>cost_total := Some (replicate (K c0) (Fin 0))\<rparr>;
          st = initial_batch c1 (the (state c1));
          c2 = c1\<lparr>noise := Some sample\<rparr>;
          c3 = c2\<lparr>perturbed_action := Some (map (\<lambda>traj. map2 vadd (U c2) traj) sample)\<rparr>
      in if sample_null_action c3 \<and> K c3 = 0 then (c3, Inl IndexError)
      else
        let pa0 = perturb c3 sample;
            c4 = c3\<lparr>perturbed_action := Some pa0\<rparr>
        in case clamp (u_min c4) (u_max c4) pa0 of
             Inl e \<Rightarrow> (c4, Inl e)
           | Inr pac \<Rightarrow>
               let c5 = c4\<lparr>perturbed_action := Some pac\<rparr>;
                   nse = map (\<lambda>traj. map2 vsub traj (U c5)) pac;
                   c6 = c5\<lparr>noise := Some nse\<rparr>;
                   action_cost =
                     map (map (\<lambda>v. vec_mat (vscale (lambda c6)
                            (if noise_abs_cost c6 then map fabs v else v)) (noise_sigma_inv c6))) nse;
                   (ss, acs) = rollout_loop c6 pac [0..<T c6] st [] [];
                   c7 = c6\<lparr>states := Some ss, actions := Some acs\<rparr>
               in if acs = [] then (c7, Inl RuntimeError)
               else
                 let acts = stack1 (K c7) acs;
                     sts = stack1 (K c7) ss;
                     c8 = c7\<lparr>actions := Some acts, states := Some sts\<rparr>;
                     ct1 = (case trajectory_cost c8 of
                              None \<Rightarrow> the (cost_total c8)
                            | Some tc \<Rightarrow> vadd (the (cost_total c8)) (tc sts acts));
                     c9 = c8\<lparr>cost_total := Some ct1,
                             actions := Some (map (map (map (\<lambda>x. fdiv x (u_scale c8)))) acts)\<rparr>;
                     perturbation_cost =
                       map (\<lambda>ac. fsum (concat (map2 (map2 fmul) (U c9) ac))) action_cost;
                     ct2 = vadd ct1 perturbation_cost
                 in (c9\<lparr>cost_total := Some ct2\<rparr>, Inr ct2))"

text \<open>
  \<^verbatim>\<open>x.view(-1, n)\<close> of a contiguous tensor given by its elements in order, and
  \<^verbatim>\<open>x.view(r, -1)\<close>. Both raise a RuntimeError when the elements do not fill the shape.
\<close>

definition chunks :: "nat \<Rightarrow> 'a list \<Rightarrow> 'a list list" where
  "chunks n xs = map (\<lambda>i. take n (drop (i * n) xs)) [0..<length xs div n]"

definition view_cols :: "nat \<Rightarrow> vec \<Rightarrow> error + mat" where
  "view_cols n xs =
     (if n = 0 \<or> length xs mod n \<noteq> 0 then Inl RuntimeError else Inr (chunks n xs))"

definition view_rows :: "nat \<Rightarrow> vec \<Rightarrow> error + mat" where
  "view_rows r xs =
     (if r = 0 \<or> xs = [] \<or> length xs mod r \<noteq> 0 then Inl RuntimeError
      else Inr (chunks (length xs div r) xs))"

definition flatten :: "tensor \<Rightarrow> vec" where
  "flatten st = (case st of Vec v \<Rightarrow> v | Mat rows \<Rightarrow> concat rows)"

text \<open>
  The loop of \<^verbatim>\<open>MPPI.get_rollouts\<close>: \<open>cur\<close> is \<^verbatim>\<open>states[:, t]\<close>, the result lists
  \<^verbatim>\<open>states[:, t + 1]\<close> for the timesteps run. The controller is threaded through the
  loop as the object is in the source.
\<close>

fun replay_loop :: "mppi \<Rightarrow> nat \<Rightarrow> nat list \<Rightarrow> mat \<Rightarrow> ten3 \<Rightarrow> mppi \<times> (error + ten3)" where
  "replay_loop c n [] cur acc = (c, Inr acc)"
| "replay_loop c n (t # ts) cur acc =
     (case view_rows n (concat cur) of
        Inl e \<Rightarrow> (c, Inl e)
      | Inr s \<Rightarrow>
          (case view_rows n (U c ! t) of
             Inl e \<Rightarrow> (c, Inl e)
           | Inr u \<Rightarrow>
               let nxt = dynamics c s (map (vscale (u_scale c)) u) t
               in replay_loop c n ts nxt (acc @ [nxt])))"

text \<open>
  \<^verbatim>\<open>MPPI.get_rollouts(state, num_rollouts)\<close>. The state is viewed as rows of \<open>nx\<close>
  elements; one row is repeated \<open>num_rollouts\<close> times; the assignment
  \<^verbatim>\<open>states[:, 0] = state\<close> raises when the number of rows is neither \<open>num_rollouts\<close>
  nor one. The result is \<^verbatim>\<open>states[:, 1:]\<close>, of shape \<open>num_rollouts \<times> T \<times> nx\<close>.
\<close>

definition get_rollouts :: "mppi \<Rightarrow> tensor \<Rightarrow> nat \<Rightarrow> mppi \<times> (error + ten3)" where
  "get_rollouts c st num_rollouts =
     (case view_cols (nx c) (flatten st) of
        Inl e \<Rightarrow> (c, Inl e)
      | Inr rows \<Rightarrow>
          let rows1 = (if length rows = 1 then replicate num_rollouts (hd rows) else rows)
          in if length rows1 \<noteq> num_rollouts \<and> length rows1 \<noteq> 1 then (c, Inl RuntimeError)
          else
            let s0 = (if length rows1 = num_rollouts then rows1
                      else replicate num_rollouts (hd rows1));
                (c', r) = replay_loop c num_rollouts [0..<length (U c)] s0 []
            in (c', case r of Inl e \<Rightarrow> Inl e | Inr sts \<Rightarrow> Inr (stack1 num_rollouts sts)))"

text \<open>\<^verbatim>\<open>torch.roll(U, -1, dims=0)\<close>: every row moves one place to the front, the first row
  to the end.\<close>

definition roll_left :: "mat \<Rightarrow> mat" where
  "roll_left u = (case u of [] \<Rightarrow> [] | r # rs \<Rightarrow> rs @ [r])"

text \<open>
  The update loop of \<^verbatim>\<open>command\<close>, over the timesteps still to run:
  \<^verbatim>\<open>U[t] += torch.sum(omega.view(-1, 1) * noise[:, t], dim=0)\<close>.
\<close>

definition weighted_noise :: "vec \<Rightarrow> ten3 \<Rightarrow> nat \<Rightarrow> nat \<Rightarrow> vec" where
  "weighted_noise om nse n t = sum_dim0 n (map2 vscale om (slice_t nse t))"

fun update_loop :: "vec \<Rightarrow> ten3 \<Rightarrow> nat list \<Rightarrow> mat \<Rightarrow> mat" where
  "update_loop om nse [] u = u"
| "update_loop om nse (t # ts) u =
     update_loop om nse ts (u[t := vadd (u ! t) (weighted_noise om nse (length (u ! t)) t)])"

text \<open>
  What \<^verbatim>\<open>command\<close> extracts from the updated sequence:
  \<^verbatim>\<open>self.u_scale * self.U[:self.u_per_command]\<close>, and its first row alone when one
  action is asked for.
\<close>

definition first_actions :: "mppi \<Rightarrow> action" where
  "first_actions c =
     (let acts = map (vscale (u_scale c)) (take (u_per_command c) (U c))
      in if u_per_command c = 1 then Single (hd acts) else Several acts)"

text \<open>
  \<^verbatim>\<open>MPPI.command(state)\<close>, with the noise sample the call draws as an argument. The
  result is the controller as the call leaves it, and what the call returns or the
  exception it raises. \<open>lambda\<close> is a Python number, so \<^verbatim>\<open>1 / self.lambda_\<close> raises
  on zero; \<^verbatim>\<open>torch.min\<close> raises on an empty tensor; \<^verbatim>\<open>self.U[-1]\<close> raises on an
  empty sequence.
\<close>

definition command :: "mppi \<Rightarrow> tensor \<Rightarrow> ten3 \<Rightarrow> mppi \<times> (error + action \<times> ten3)" where
  "command c0 st sample =
     (let c1 = c0\<lparr>U := roll_left (U c0)\<rparr>
      in if U c1 = [] then (c1, Inl IndexError)
      else
        let c2 = c1\<lparr>U := butlast (U c1) @ [u_init c1]\<rparr>;
            c3 = c2\<lparr>state := Some st\<rparr>
        in case compute_total_cost_batch c3 sample of
             (c4, Inl e) \<Rightarrow> (c4, Inl e)
           | (c4, Inr ct) \<Rightarrow>
               if ct = [] then (c4, Inl RuntimeError)
               else if lambda c4 = Fin 0 then (c4, Inl ZeroDivisionError)
               else
                 let beta = fmin_list ct;
                     cnz = ensure_non_zero ct beta (fdiv (Fin 1) (lambda c4));
                     c5 = c4\<lparr>cost_total_non_zero := Some cnz\<rparr>;
                     eta = fsum cnz;
                     om = vscale (fdiv (Fin 1) eta) cnz;
                     c6 = c5\<lparr>omega := Some om\<rparr>;
                     c7 = c6\<lparr>U := update_loop om (the (noise c6)) [0..<T c6] (U c6)\<rparr>;
                     act = first_actions c7;
                     (c8, r) = get_rollouts c7 st 1
                 in (c8, case r of Inl e \<Rightarrow> Inl e | Inr ro \<Rightarrow> Inr (act, ro)))"

text \<open>
  \<^verbatim>\<open>MPPI.command(state)\<close> of a controller whose \<^verbatim>\<open>self.dtype\<close> is \<open>d\<close>, the dtype of
  \<^verbatim>\<open>cost_total\<close>: the statements of \<open>command\<close>, with the exponential of that dtype.
\<close>

definition command_fl :: "dtype \<Rightarrow> mppi \<Rightarrow> tensor \<Rightarrow> ten3 \<Rightarrow> mppi \<times> (error + action \<times> ten3)" where
  "command_fl d c0 st sample =
     (let c1 = c0\<lparr>U := roll_left (U c0)\<rparr>
      in if U c1 = [] then (c1, Inl IndexError)
      else
        let c2 = c1\<lparr>U := butlast (U c1) @ [u_init c1]\<rparr>;
            c3 = c2\<lparr>state := Some st\<rparr>
        in case compute_total_cost_batch c3 sample of
             (c4, Inl e) \<Rightarrow> (c4, Inl e)
           | (c4, Inr ct) \<Rightarrow>
               if ct = [] then (c4, Inl RuntimeError)
               else if lambda c4 = Fin 0 then (c4, Inl ZeroDivisionError)
               else
                 let beta = fmin_list ct;
                     cnz = ensure_non_zero_fl d ct beta (fdiv (Fin 1) (lambda c4));
                     c5 = c4\<lparr>cost_total_non_zero := Some cnz\<rparr>;
                     eta = fsum cnz;
                     om = vscale (fdiv (Fin 1) eta) cnz;
                     c6 = c5\<lparr>omega := Some om\<rparr>;
                     c7 = c6\<lparr>U := update_loop om (the (noise c6)) [0..<T c6] (U c6)\<rparr>;
                     act = first_actions c7;
                     (c8, r) = get_rollouts c7 st 1
                 in (c8, case r of Inl e \<Rightarrow> Inl e | Inr ro \<Rightarrow> Inr (act, ro)))"

text \<open>
  The bounds as \<^verbatim>\<open>MPPI.__init__\<close> sets them: when only one side is given, the other
  is its negation.
\<close>

definition init_bounds :: "vec option \<Rightarrow> vec option \<Rightarrow> vec option \<times> vec option" where
  "init_bounds umin umax =
     (let umin1 = (if umax \<noteq> None \<and> umin = None then map_option (map fneg) umax else umin);
          umax1 = (if umin1 \<noteq> None \<and> umax = None then map_option (map fneg) umin1 else umax)
      in (umin1, umax1))"

text \<open>
  \<^verbatim>\<open>MPPI.__init__\<close>. The covariance is zero- or two-dimensional. Two results of the
  torch library are arguments: \<open>sigma_inv\<close>, what \<^verbatim>\<open>torch.inverse\<close> returns for the
  covariance, and \<open>drawn\<close>, the \<open>T\<close> draws that initialise \<open>U\<close> when no \<open>U_init\<close> is
  given. The noise mean serves only to sample and to shape the default \<open>u_init\<close>.
\<close>

datatype sigma = Sigma0 fval | Sigma2 mat

definition init ::
  "mat \<Rightarrow> mat \<Rightarrow> (mat \<Rightarrow> mat \<Rightarrow> nat option \<Rightarrow> mat) \<Rightarrow> (ten3 \<Rightarrow> ten3 \<Rightarrow> vec) option \<Rightarrow> nat \<Rightarrow> sigma \<Rightarrow>
   nat \<Rightarrow> nat \<Rightarrow> fval \<Rightarrow> vec option \<Rightarrow> vec option \<Rightarrow> vec option \<Rightarrow> vec option \<Rightarrow> mat option \<Rightarrow>
   fval \<Rightarrow> nat \<Rightarrow> bool \<Rightarrow> bool \<Rightarrow> bool \<Rightarrow> mppi" where
  "init sigma_inv drawn dyn tc n_x noise_sigma num_samples horizon lam noise_mu
        umin umax uinit Uinit uscale upc step_dependent_dynamics null_action abs_cost =
     (let n_u = (case noise_sigma of Sigma0 x \<Rightarrow> 1 | Sigma2 m \<Rightarrow> length m);
          mu = (case noise_mu of None \<Rightarrow> replicate n_u (Fin 0) | Some m \<Rightarrow> m);
          ui = (case uinit of None \<Rightarrow> map (\<lambda>x. Fin 0) mu | Some v \<Rightarrow> v);
          (lo, hi) = init_bounds umin umax
      in \<lparr>K = num_samples, T = horizon, nx = n_x, nu = n_u, lambda = lam,
          u_min = lo, u_max = hi, u_scale = uscale, u_per_command = upc,
          noise_sigma_inv = sigma_inv,
          U = (case Uinit of None \<Rightarrow> drawn | Some u \<Rightarrow> u),
          u_init = ui, step_dependency = step_dependent_dynamics, F = dyn,
          trajectory_cost = tc, sample_null_action = null_action,
          noise_abs_cost = abs_cost, state = None, cost_total = None,
          cost_total_non_zero = None, omega = None, states = None, actions = None,
          noise = None, perturbed_action = None\<rparr>)"

section \<open>Shapes and derived notions\<close>

text \<open>
  The trajectory cost returns one cost per trajectory (the contract of the cost
  boundary).
\<close>

definition tc_ok :: "mppi \<Rightarrow> bool" where
  "tc_ok c \<longleftrightarrow> (\<forall>tc s a. trajectory_cost c = Some tc \<longrightarrow> length (tc s a) = K c)"

text \<open>
  The conditions under which \<^verbatim>\<open>command\<close> reaches its update: there is a sample and
  a timestep, at least one bound is set, \<open>lambda\<close> is not zero, and the noise sample
  has one trajectory per sample.
\<close>

definition runs :: "mppi \<Rightarrow> ten3 \<Rightarrow> bool" where
  "runs c sample \<longleftrightarrow> 0 < K c \<and> 0 < T c \<and> U c \<noteq> [] \<and> (u_min c \<noteq> None \<or> u_max c \<noteq> None)
      \<and> lambda c \<noteq> Fin 0 \<and> length sample = K c \<and> tc_ok c"

text \<open>The control sequence after the two shifting statements of \<^verbatim>\<open>command\<close>.\<close>

definition shift_U :: "mppi \<Rightarrow> mat" where
  "shift_U c = butlast (roll_left (U c)) @ [u_init c]"

text \<open>
  The perturbed actions after clamping, the noise recomputed from them, and the
  weights \<^verbatim>\<open>command\<close> derives from a batch of total costs.
\<close>

definition clamped :: "mppi \<Rightarrow> ten3 \<Rightarrow> ten3" where
  "clamped c sample = map (map (clamp_vec (u_min c) (u_max c))) (perturb c sample)"

definition eff_noise :: "mppi \<Rightarrow> ten3 \<Rightarrow> ten3" where
  "eff_noise c sample = map (\<lambda>traj. map2 vsub traj (U c)) (clamped c sample)"

definition weights :: "fval \<Rightarrow> vec \<Rightarrow> vec" where
  "weights lam ct =
     (let cnz = ensure_non_zero ct (fmin_list ct) (fdiv (Fin 1) lam)
      in vscale (fdiv (Fin 1) (fsum cnz)) cnz)"

text \<open>The weights that call derives from a batch of total costs.\<close>

definition weights_fl :: "dtype \<Rightarrow> fval \<Rightarrow> vec \<Rightarrow> vec" where
  "weights_fl d lam ct =
     (let cnz = ensure_non_zero_fl d ct (fmin_list ct) (fdiv (Fin 1) lam)
      in vscale (fdiv (Fin 1) (fsum cnz)) cnz)"

text \<open>The controller as \<^verbatim>\<open>command\<close> passes it to \<^verbatim>\<open>_compute_total_cost_batch\<close>.\<close>

definition shifted :: "mppi \<Rightarrow> tensor \<Rightarrow> mppi" where
  "shifted c st = c\<lparr>U := shift_U c, state := Some st\<rparr>"

text \<open>
  The shapes the docstrings give: \<open>U\<close> is \<open>T \<times> nu\<close>, \<open>u_init\<close> and the bounds have
  \<open>nu\<close> entries, the trajectory cost returns \<open>K\<close> costs; a noise sample is
  \<open>K \<times> T \<times> nu\<close>.
\<close>

definition well_shaped :: "mppi \<Rightarrow> bool" where
  "well_shaped c \<longleftrightarrow>
     length (U c) = T c \<and> list_all (\<lambda>r. length r = nu c) (U c) \<and> length (u_init c) = nu c \<and>
     (case u_min c of None \<Rightarrow> True | Some b \<Rightarrow> length b = nu c) \<and>
     (case u_max c of None \<Rightarrow> True | Some b \<Rightarrow> length b = nu c) \<and> tc_ok c"

definition sample_shape :: "mppi \<Rightarrow> ten3 \<Rightarrow> bool" where
  "sample_shape c sample \<longleftrightarrow>
     length sample = K c \<and>
     list_all (\<lambda>traj. length traj = T c \<and> list_all (\<lambda>v. length v = nu c) traj) sample"

text \<open>
  What \<^verbatim>\<open>command\<close> needs to reach its update: a sample, a timestep, a bound
  (\<^verbatim>\<open>torch.clamp\<close> raises without one) and a non-zero \<open>lambda\<close>.
\<close>

definition configured :: "mppi \<Rightarrow> bool" where
  "configured c \<longleftrightarrow>
     0 < K c \<and> 0 < T c \<and> (u_min c \<noteq> None \<or> u_max c \<noteq> None) \<and> lambda c \<noteq> Fin 0"

text \<open>
  The states a rollout visits: from \<open>st\<close>, one dynamics step per timestep of \<open>ts\<close>,
  with the perturbed action of that timestep times \<open>u_scale\<close>.
\<close>

primrec run_states :: "mppi \<Rightarrow> ten3 \<Rightarrow> mat \<Rightarrow> nat list \<Rightarrow> ten3" where
  "run_states c pa st [] = []"
| "run_states c pa st (t # ts) =
     (let st' = dynamics c st (map (vscale (u_scale c)) (slice_t pa t)) t
      in st' # run_states c pa st' ts)"

text \<open>
  The recorded states and actions of \<^verbatim>\<open>_compute_total_cost_batch\<close>, lists over the
  timesteps, and its control-effort cost.
\<close>

definition rollout :: "mppi \<Rightarrow> ten3 \<Rightarrow> ten3 \<times> ten3" where
  "rollout c sample =
     rollout_loop c (clamped c sample) [0..<T c] (initial_batch c (the (state c))) [] []"

definition action_cost :: "mppi \<Rightarrow> ten3 \<Rightarrow> ten3" where
  "action_cost c sample =
     map (map (\<lambda>v. vec_mat (vscale (lambda c) (if noise_abs_cost c then map fabs v else v))
                       (noise_sigma_inv c))) (eff_noise c sample)"

definition perturbation_cost :: "mppi \<Rightarrow> ten3 \<Rightarrow> vec" where
  "perturbation_cost c sample =
     map (\<lambda>ac. fsum (concat (map2 (map2 fmul) (U c) ac))) (action_cost c sample)"

subsection \<open>Small controllers\<close>

text \<open>
  Two samples over a horizon of one step, one control and one state dimension, bounds
  \<open>[-1, 1]\<close>, identity dynamics and no trajectory cost, built by the constructor; and a
  noise sample that is zero.
\<close>

definition ex_c :: mppi where
  "ex_c = init [[Fin 1]] [[Fin 0]] (\<lambda>s u t. s) None 1 (Sigma2 [[Fin 1]]) 2 1 (Fin 1) None
            (Some [Fin (- 1)]) (Some [Fin 1]) None (Some [[Fin 0]]) (Fin 1) 1 False False False"

definition ex_sample :: ten3 where
  "ex_sample = [[[Fin 0]], [[Fin 0]]]"

text \<open>The same constructed with only \<open>u_max = [-1]\<close>, and with no bound at all.\<close>

definition ex_neg :: mppi where
  "ex_neg = init [[Fin 1]] [[Fin 0]] (\<lambda>s u t. s) None 1 (Sigma2 [[Fin 1]]) 2 1 (Fin 1) None
            None (Some [Fin (- 1)]) None (Some [[Fin 0]]) (Fin 1) 1 False False False"

definition ex_unbounded :: mppi where
  "ex_unbounded = init [[Fin 1]] [[Fin 0]] (\<lambda>s u t. s) None 1 (Sigma2 [[Fin 1]]) 2 1 (Fin 1) None
            None None None (Some [[Fin 0]]) (Fin 1) 1 False False False"

text \<open>The small controller sampling the null action, with \<open>u_init = [1]\<close>.\<close>

definition ex_null :: mppi where
  "ex_null = ex_c\<lparr>sample_null_action := True, u_init := [Fin 1]\<rparr>"

text \<open>The small controller with a trajectory cost that is infinite for both samples.\<close>

definition ex_inf :: mppi where
  "ex_inf = ex_c\<lparr>trajectory_cost := Some (\<lambda>sts acts. [PInf, PInf])\<rparr>"

text \<open>
  The small controller with \<open>u_scale = 2\<close> and a trajectory cost that returns, for each
  of the two trajectories, the first action it is given; and a noise sample that is one.
\<close>

definition ex_scaled :: mppi where
  "ex_scaled = ex_c\<lparr>u_scale := Fin 2,
     trajectory_cost := Some (\<lambda>sts acts. [hd (hd (acts ! 0)), hd (hd (acts ! 1))])\<rparr>"

definition ex_ones :: ten3 where
  "ex_ones = [[[Fin 1]], [[Fin 1]]]"


text \<open>
  A horizon of two steps: \<open>U = [[0], [1/2]]\<close>, bounds \<open>[-1, 1]\<close>, \<open>lambda = 1\<close>, and a
  trajectory cost of 0 for the first sample and \<open>ln 2\<close> for the second. The noise
  sample is zero at the first timestep and 3 and \<open>-1/2\<close> at the second.
\<close>

definition ex_two :: mppi where
  "ex_two = init [[Fin 1]] [[Fin 0], [Fin 0]] (\<lambda>s u t. s) (Some (\<lambda>sts acts. [Fin 0, Fin (ln 2)])) 1
              (Sigma2 [[Fin 1]]) 2 2 (Fin 1) None (Some [Fin (- 1)]) (Some [Fin 1]) None
              (Some [[Fin 0], [Fin (1 / 2)]]) (Fin 1) 1 False False False"

definition ex_two_sample :: ten3 where
  "ex_two_sample = [[[Fin 0], [Fin 3]], [[Fin 0], [Fin (- (1 / 2))]]]"

section \<open>Basic facts\<close>

lemma rollout_loop_length:
  "length (fst (rollout_loop c pa ts st ss acs)) = length ss + length ts \<and>
   length (snd (rollout_loop c pa ts st ss acs)) = length acs + length ts"
  by (induction ts arbitrary: st ss acs) (simp_all add: Let_def)

lemma rollout_loop_acs_ne:
  "rollout_loop c pa [0..<n] st [] [] = (ss, acs) \<Longrightarrow> 0 < n \<Longrightarrow> acs \<noteq> []"
  using rollout_loop_length[of c pa "[0..<n]" st "[]" "[]"] by auto

lemma replay_loop_frame: "fst (replay_loop c n ts cur acc) = c"
  by (induction ts arbitrary: cur acc) (simp_all add: Let_def split: sum.splits)

lemma get_rollouts_frame: "fst (get_rollouts c st n) = c"
  by (simp add: get_rollouts_def Let_def replay_loop_frame split: sum.splits prod.splits)
   (metis fst_conv replay_loop_frame)

lemma length_perturb: "length (perturb c sample) = length sample"
  by (simp add: perturb_def Let_def)

lemma perturb_cong:
  "U c = U c' \<Longrightarrow> K c = K c' \<Longrightarrow> sample_null_action c = sample_null_action c'
   \<Longrightarrow> perturb c sample = perturb c' sample"
  by (simp add: perturb_def Let_def)

lemma perturb_upd:
  "perturb (c\<lparr>cost_total := a, noise := b, perturbed_action := d\<rparr>) sample = perturb c sample"
  by (rule perturb_cong) simp_all

lemma length_vadd: "length (vadd u v) = min (length u) (length v)"
  by (simp add: vadd_def)

lemma ctcb_fields:
  assumes "0 < T c" "u_min c \<noteq> None \<or> u_max c \<noteq> None" "0 < K c"
  shows "\<exists>ct. compute_total_cost_batch c sample = (fst (compute_total_cost_batch c sample), Inr ct)
     \<and> cost_total (fst (compute_total_cost_batch c sample)) = Some ct
     \<and> (length sample = K c \<longrightarrow> tc_ok c \<longrightarrow> length ct = K c)
     \<and> U (fst (compute_total_cost_batch c sample)) = U c
     \<and> noise (fst (compute_total_cost_batch c sample)) = Some (eff_noise c sample)
     \<and> perturbed_action (fst (compute_total_cost_batch c sample)) = Some (clamped c sample)
     \<and> T (fst (compute_total_cost_batch c sample)) = T c
     \<and> lambda (fst (compute_total_cost_batch c sample)) = lambda c"
  using assms
  by (auto simp: compute_total_cost_batch_def Let_def clamp_def perturb_upd eff_noise_def clamped_def
        tc_ok_def length_vadd length_perturb
        split: option.splits prod.splits dest: rollout_loop_acs_ne)

lemma shifted_simps:
  "K (shifted c st) = K c" "T (shifted c st) = T c" "u_min (shifted c st) = u_min c"
  "u_max (shifted c st) = u_max c" "lambda (shifted c st) = lambda c"
  "U (shifted c st) = shift_U c" "tc_ok (shifted c st) = tc_ok c"
  "sample_null_action (shifted c st) = sample_null_action c"
  by (simp_all add: shifted_def tc_ok_def)

lemma command_fields:
  assumes "runs c sample"
  shows "\<exists>ct. snd (compute_total_cost_batch (shifted c st) sample) = Inr ct
     \<and> length ct = K c
     \<and> cost_total (fst (command c st sample)) = Some ct
     \<and> cost_total_non_zero (fst (command c st sample))
          = Some (ensure_non_zero ct (fmin_list ct) (fdiv (Fin 1) (lambda c)))
     \<and> omega (fst (command c st sample)) = Some (weights (lambda c) ct)
     \<and> noise (fst (command c st sample)) = Some (eff_noise (shifted c st) sample)
     \<and> perturbed_action (fst (command c st sample)) = Some (clamped (shifted c st) sample)
     \<and> U (fst (command c st sample))
          = update_loop (weights (lambda c) ct) (eff_noise (shifted c st) sample) [0..<T c] (shift_U c)"
proof -
  from assms have r: "0 < K c" "0 < T c" "U c \<noteq> []" "u_min c \<noteq> None \<or> u_max c \<noteq> None"
    "lambda c \<noteq> Fin 0" "length sample = K c" "tc_ok c"
    by (simp_all add: runs_def)
  from ctcb_fields[of "shifted c st" sample] r
  obtain ct where ct:
    "compute_total_cost_batch (shifted c st) sample
       = (fst (compute_total_cost_batch (shifted c st) sample), Inr ct)"
    "cost_total (fst (compute_total_cost_batch (shifted c st) sample)) = Some ct"
    "length ct = K c"
    "U (fst (compute_total_cost_batch (shifted c st) sample)) = shift_U c"
    "noise (fst (compute_total_cost_batch (shifted c st) sample)) = Some (eff_noise (shifted c st) sample)"
    "perturbed_action (fst (compute_total_cost_batch (shifted c st) sample))
       = Some (clamped (shifted c st) sample)"
    "T (fst (compute_total_cost_batch (shifted c st) sample)) = T c"
    "lambda (fst (compute_total_cost_batch (shifted c st) sample)) = lambda c"
    by (auto simp: shifted_simps)
  have ne: "ct \<noteq> []" using ct(3) r(1) by auto
  have rl: "roll_left (U c) \<noteq> []" using r(3) by (simp add: roll_left_def split: list.splits)
  define c4 where "c4 = fst (compute_total_cost_batch (shifted c st) sample)"
  have e: "compute_total_cost_batch (c\<lparr>U := butlast (roll_left (U c)) @ [u_init c], state := Some st\<rparr>) sample
      = (c4, Inr ct)"
    using ct(1) unfolding shifted_def shift_U_def c4_def by simp
  have s: "snd (compute_total_cost_batch (shifted c st) sample) = Inr ct"
    using ct(1) by (metis snd_conv)
  have f: "fst (command c st sample) =
      c4\<lparr>cost_total_non_zero := Some (ensure_non_zero ct (fmin_list ct) (fdiv (Fin 1) (lambda c))),
         omega := Some (weights (lambda c) ct),
         U := update_loop (weights (lambda c) ct) (eff_noise (shifted c st) sample) [0..<T c] (shift_U c)\<rparr>"
    using ne r(5) ct(2-) unfolding c4_def[symmetric]
    by (simp add: command_def Let_def rl e split_beta get_rollouts_frame weights_def)
  show ?thesis
    using ct(2-) unfolding c4_def[symmetric]
    by (intro exI[of _ ct]) (simp add: s f)
qed

subsection \<open>Weights of a finite cost batch\<close>

lemma fsum_Fin: "fsum (map Fin xs) = Fin (sum_list xs)"
  by (induction xs) (simp_all add: fsum_def)

lemma fmin_list_Fin: "cs \<noteq> [] \<Longrightarrow> fmin_list (map Fin cs) = Fin (Min (set cs))"
proof (induction cs rule: list_nonempty_induct)
  case (single x)
  then show ?case by simp
next
  case (cons x xs)
  then obtain y ys where xs: "xs = y # ys" by (cases xs) auto
  have "fmin_list (map Fin (x # xs)) = fmin2 (Fin x) (fmin_list (map Fin xs))"
    by (simp add: xs)
  also have "\<dots> = fmin2 (Fin x) (Fin (Min (set xs)))" using cons by simp
  also have "\<dots> = Fin (min x (Min (set xs)))" by (simp add: fmin2_def min_def)
  also have "min x (Min (set xs)) = Min (set (x # xs))" using cons(1) by simp
  finally show ?case .
qed

lemma ensure_non_zero_Fin:
  "ensure_non_zero (map Fin cs) (Fin b) (Fin (1 / l)) = map (\<lambda>x. Fin (exp (- (x - b) / l))) cs"
  by (simp add: ensure_non_zero_def fsub_def diff_divide_distrib)

lemma member_le_sum_list_real:
  fixes f :: "'a \<Rightarrow> real"
  shows "\<forall>y\<in>set xs. 0 \<le> f y \<Longrightarrow> x \<in> set xs \<Longrightarrow> f x \<le> (\<Sum>y\<leftarrow>xs. f y)"
proof (induction xs)
  case Nil
  then show ?case by simp
next
  case (Cons a xs)
  have nn: "0 \<le> (\<Sum>y\<leftarrow>xs. f y)" using Cons.prems(1) by (intro sum_list_nonneg) auto
  show ?case
  proof (cases "x = a")
    case True
    then show ?thesis using nn by simp
  next
    case False
    then have "f x \<le> (\<Sum>y\<leftarrow>xs. f y)" using Cons by simp
    moreover have "0 \<le> f a" using Cons.prems(1) by simp
    ultimately show ?thesis by simp
  qed
qed

lemma finite_list: "list_all is_finite ct \<Longrightarrow> \<exists>cs. ct = map Fin cs"
proof (induction ct)
  case Nil
  then show ?case by simp
next
  case (Cons a ct)
  then obtain cs where "ct = map Fin cs" by auto
  moreover obtain r where "a = Fin r" using Cons.prems by (cases a) auto
  ultimately have "a # ct = map Fin (r # cs)" by simp
  then show ?case by (rule exI)
qed

lemma exp_sum_ge_1:
  fixes cs :: "real list" and l :: real
  assumes "cs \<noteq> []"
  shows "1 \<le> (\<Sum>y\<leftarrow>cs. exp (- (y - Min (set cs)) / l))"
proof -
  have m: "Min (set cs) \<in> set cs" using assms by (simp add: Min_in)
  have "exp (- (Min (set cs) - Min (set cs)) / l) \<le> (\<Sum>y\<leftarrow>cs. exp (- (y - Min (set cs)) / l))"
    using member_le_sum_list_real[where f="\<lambda>y. exp (- (y - Min (set cs)) / l)" and xs=cs and x="Min (set cs)"] m
    by simp
  then show ?thesis by simp
qed

lemma weights_Fin:
  assumes "cs \<noteq> []" "l \<noteq> 0"
  shows "weights (Fin l) (map Fin cs)
     = map (\<lambda>x. Fin (exp (- (x - Min (set cs)) / l) / (\<Sum>y\<leftarrow>cs. exp (- (y - Min (set cs)) / l)))) cs"
proof -
  have pos: "(\<Sum>y\<leftarrow>cs. exp (- (y - Min (set cs)) / l)) \<noteq> 0"
    using exp_sum_ge_1[OF assms(1), of l] by linarith
  have "fsum (map (\<lambda>x. Fin (exp (- (x - Min (set cs)) / l))) cs)
      = Fin (\<Sum>y\<leftarrow>cs. exp (- (y - Min (set cs)) / l))"
    using fsum_Fin[of "map (\<lambda>x. exp (- (x - Min (set cs)) / l)) cs"] by (simp add: comp_def)
  then show ?thesis
    using assms pos
    by (simp add: weights_def Let_def fmin_list_Fin ensure_non_zero_Fin vscale_def comp_def)
qed

lemma weights_sum_1:
  assumes "cs \<noteq> []" "l \<noteq> 0"
  shows "fsum (weights (Fin l) (map Fin cs)) = Fin 1"
proof -
  let ?e = "\<lambda>x. exp (- (x - Min (set cs)) / l)"
  let ?s = "\<Sum>y\<leftarrow>cs. ?e y"
  have pos: "?s \<noteq> 0" using exp_sum_ge_1[OF assms(1), of l] by linarith
  have "fsum (weights (Fin l) (map Fin cs)) = fsum (map Fin (map (\<lambda>x. ?e x / ?s) cs))"
    by (simp add: weights_Fin[OF assms] comp_def)
  also have "\<dots> = Fin (\<Sum>x\<leftarrow>cs. ?e x / ?s)" by (simp only: fsum_Fin)
  also have "(\<Sum>x\<leftarrow>cs. ?e x / ?s) = ?s / ?s"
    by (simp add: divide_inverse sum_list_mult_const)
  finally show ?thesis using pos by simp
qed

lemma runs_intro:
  "well_shaped c \<Longrightarrow> configured c \<Longrightarrow> length sample = K c \<Longrightarrow> runs c sample"
  by (auto simp: well_shaped_def configured_def runs_def)

subsection \<open>The small controller\<close>

lemma ex_c_fields:
  "K ex_c = 2" "T ex_c = 1" "nu ex_c = 1" "U ex_c = [[Fin 0]]" "u_init ex_c = [Fin 0]"
  "u_min ex_c = Some [Fin (- 1)]" "u_max ex_c = Some [Fin 1]" "lambda ex_c = Fin 1"
  "trajectory_cost ex_c = None" "sample_null_action ex_c = False" "noise_abs_cost ex_c = False"
  "noise_sigma_inv ex_c = [[Fin 1]]" "u_scale ex_c = Fin 1"
  by (simp_all add: ex_c_def init_def init_bounds_def Let_def)

lemma ex_c_well_shaped: "well_shaped ex_c"
  by (simp add: well_shaped_def ex_c_fields tc_ok_def)

lemma ex_c_configured: "configured ex_c"
  by (simp add: configured_def ex_c_fields)

lemma ex_sample_shape: "sample_shape ex_c ex_sample"
  by (simp add: sample_shape_def ex_c_fields ex_sample_def)

lemma ex_c_cost:
  "snd (compute_total_cost_batch (shifted ex_c st) ex_sample) = Inr [Fin 0, Fin 0]"
  by (simp add: compute_total_cost_batch_def shifted_def shift_U_def roll_left_def ex_c_fields
      ex_sample_def perturb_def clamp_def clamp_vec_def fclamp_def bound_at_def fmax2_def fmin2_def
      vadd_def vsub_def fsub_def vscale_def vec_mat_def sum_dim0_def fsum_def stack1_def slice_t_def
      Let_def numeral_2_eq_2 split: prod.splits)

lemma ex_c_cost_total:
  "cost_total (fst (command ex_c st ex_sample)) = Some (map Fin [0, 0])"
proof -
  have "runs ex_c ex_sample"
    by (rule runs_intro) (simp_all add: ex_c_well_shaped ex_c_configured ex_sample_def ex_c_fields)
  from command_fields[OF this, of st] show ?thesis by (auto simp: ex_c_cost)
qed

subsection \<open>Weights computed by a call\<close>

lemma command_omega_Fin:
  assumes "well_shaped c" "configured c" "length sample = K c" "lambda c = Fin l" "l \<noteq> 0"
    and "cost_total (fst (command c st sample)) = Some (map Fin cs)"
  shows "cs \<noteq> []" "length cs = K c"
    "cost_total_non_zero (fst (command c st sample))
       = Some (map (\<lambda>x. Fin (exp (- (x - Min (set cs)) / l))) cs)"
    "omega (fst (command c st sample)) =
       Some (map (\<lambda>x. Fin (exp (- (x - Min (set cs)) / l) /
                          (\<Sum>y\<leftarrow>cs. exp (- (y - Min (set cs)) / l)))) cs)"
proof -
  have r: "runs c sample" using assms(1-3) by (rule runs_intro)
  from command_fields[OF r, of st] assms(6)
  have len: "length (map Fin cs) = K c"
    and cnz: "cost_total_non_zero (fst (command c st sample))
       = Some (ensure_non_zero (map Fin cs) (fmin_list (map Fin cs)) (fdiv (Fin 1) (lambda c)))"
    and om: "omega (fst (command c st sample)) = Some (weights (lambda c) (map Fin cs))"
    by auto
  show l: "length cs = K c" using len by simp
  show ne: "cs \<noteq> []" using l assms(2) by (auto simp: configured_def)
  show "cost_total_non_zero (fst (command c st sample))
       = Some (map (\<lambda>x. Fin (exp (- (x - Min (set cs)) / l))) cs)"
    using cnz assms(4,5) ne by (simp add: fmin_list_Fin ensure_non_zero_Fin)
  show "omega (fst (command c st sample)) =
       Some (map (\<lambda>x. Fin (exp (- (x - Min (set cs)) / l) /
                          (\<Sum>y\<leftarrow>cs. exp (- (y - Min (set cs)) / l)))) cs)"
    using om assms(4) weights_Fin[OF ne assms(5)] by simp
qed

lemma weights_equal_costs:
  fixes cs :: "real list" and l :: real
  assumes "cs \<noteq> []" "\<forall>x\<in>set cs. x = hd cs"
  shows "map (\<lambda>x. Fin (exp (- (x - Min (set cs)) / l) /
                          (\<Sum>y\<leftarrow>cs. exp (- (y - Min (set cs)) / l)))) cs
         = replicate (length cs) (Fin (1 / real (length cs)))"
proof -
  have m: "Min (set cs) = hd cs" using assms by (metis Min_in List.finite_set set_empty)
  have e: "\<And>x. x \<in> set cs \<Longrightarrow> exp (- (x - Min (set cs)) / l) = 1" using assms(2) m by simp
  have "map (\<lambda>y. exp (- (y - Min (set cs)) / l)) cs = map (\<lambda>y. 1) cs"
    by (rule map_cong[OF refl]) (rule e)
  then have "(\<Sum>y\<leftarrow>cs. exp (- (y - Min (set cs)) / l)) = (\<Sum>y\<leftarrow>cs. 1)"
    by (rule arg_cong[where f=sum_list])
  also have "\<dots> = real (length cs)" by (simp add: sum_list_triv)
  finally have s: "(\<Sum>y\<leftarrow>cs. exp (- (y - Min (set cs)) / l)) = real (length cs)" .
  have "map (\<lambda>x. Fin (exp (- (x - Min (set cs)) / l) / real (length cs))) cs
      = map (\<lambda>x. Fin (1 / real (length cs))) cs"
    by (rule map_cong[OF refl]) (simp only: e)
  then show ?thesis
    unfolding s by (simp add: map_replicate_const)
qed

section \<open>Importance weights\<close>

text \<open>
  C2. For a call that reaches the update with a finite batch of total costs \<open>cs\<close> and
  \<open>lambda = l > 0\<close>, the weight of trajectory \<open>i\<close> is
  \<open>exp (- (cs\<^sub>i - \<beta>) / l)\<close> over the sum of these terms, \<open>\<beta>\<close> the least total cost; the
  weights sum to one; and when all total costs are equal every weight is \<open>1 / K\<close>.
\<close>

theorem command_weights_normalised:
  assumes "well_shaped c" and "configured c" and "length sample = K c"
    and "lambda c = Fin l" and "0 < l"
    and "cost_total (fst (command c st sample)) = Some (map Fin cs)"
  shows "omega (fst (command c st sample)) =
           Some (map (\<lambda>x. Fin (exp (- (x - Min (set cs)) / l) /
                              (\<Sum>y\<leftarrow>cs. exp (- (y - Min (set cs)) / l)))) cs)
       \<and> fsum (the (omega (fst (command c st sample)))) = Fin 1
       \<and> ((\<forall>x\<in>set cs. x = hd cs) \<longrightarrow>
            the (omega (fst (command c st sample))) = replicate (K c) (Fin (1 / real (K c))))"
proof -
  have l0: "l \<noteq> 0" using assms(5) by simp
  note f = command_omega_Fin[OF assms(1-4) l0 assms(6)]
  have r: "runs c sample" using assms(1-3) by (rule runs_intro)
  have om: "omega (fst (command c st sample)) = Some (weights (Fin l) (map Fin cs))"
    using f(4) weights_Fin[OF f(1) l0] by simp
  have "fsum (the (omega (fst (command c st sample)))) = Fin 1"
    using om weights_sum_1[OF f(1) l0] by simp
  moreover have "(\<forall>x\<in>set cs. x = hd cs) \<longrightarrow>
            the (omega (fst (command c st sample))) = replicate (K c) (Fin (1 / real (K c)))"
    using f(4) weights_equal_costs[OF f(1), of l] f(2) by simp
  ultimately show ?thesis using f(4) by simp
qed

theorem command_weights_normalised_witness:
  "omega (fst (command ex_c (Vec [Fin 0]) ex_sample)) = Some [Fin (1 / 2), Fin (1 / 2)]
   \<and> fsum (the (omega (fst (command ex_c (Vec [Fin 0]) ex_sample)))) = Fin 1"
  using command_weights_normalised[where c=ex_c and sample=ex_sample and l=1
      and st="Vec [Fin 0]" and cs="[0, 0]"] ex_c_well_shaped ex_c_configured ex_c_cost_total
  by (simp add: ex_c_fields ex_sample_def fsum_def)

section \<open>Rollout replay\<close>

text \<open>
  C9. \<^verbatim>\<open>get_rollouts\<close> leaves the controller, and so \<open>U\<close>, as it was, whatever the
  state and the number of rollouts, also when it raises; a second call with the same
  arguments returns what the first returned.
\<close>

theorem get_rollouts_leaves_controller:
  "fst (get_rollouts c st n) = c
   \<and> U (fst (get_rollouts c st n)) = U c
   \<and> snd (get_rollouts (fst (get_rollouts c st n)) st n) = snd (get_rollouts c st n)"
  by (simp add: get_rollouts_frame)

section \<open>Bounds set by the constructor\<close>

lemma fle_fneg_upper: "fle (fneg x) x \<longleftrightarrow> fle (Fin 0) x"
  by (cases x) auto

lemma fle_fneg_lower: "fle x (fneg x) \<longleftrightarrow> fle x (Fin 0)"
  by (cases x) auto

lemma init_u_min:
  "u_min (init sigma_inv drawn dyn tc n_x noise_sigma num_samples horizon lam noise_mu
        umin umax uinit Uinit uscale upc sdd na ac) = fst (init_bounds umin umax)"
  by (simp add: init_def Let_def split: prod.splits)

lemma init_u_max:
  "u_max (init sigma_inv drawn dyn tc n_x noise_sigma num_samples horizon lam noise_mu
        umin umax uinit Uinit uscale upc sdd na ac) = snd (init_bounds umin umax)"
  by (simp add: init_def Let_def split: prod.splits)

text \<open>
  C8, the claim as stated fails: constructed with only \<open>u_max = [-1]\<close>, the controller
  has \<open>u_min = [1]\<close>, above \<open>u_max\<close>.
\<close>

theorem init_bounds_crossed:
  "u_min ex_neg = Some [Fin 1] \<and> u_max ex_neg = Some [Fin (- 1)]
   \<and> \<not> fle (the (u_min ex_neg) ! 0) (the (u_max ex_neg) ! 0)"
  by (simp add: ex_neg_def init_u_min init_u_max init_bounds_def Let_def)

text \<open>
  C8, amended. When only \<open>u_max\<close> is given, \<open>u_min\<close> is its negation, and when only
  \<open>u_min\<close> is given, \<open>u_max\<close> is its negation. The pair then satisfies
  \<open>u_min \<le> u_max\<close> in a dimension exactly when the given \<open>u_max\<close> is at least zero
  there (the given \<open>u_min\<close> at most zero).
\<close>

theorem init_bounds_by_negation:
  assumes "c = init sigma_inv drawn dyn tc n_x noise_sigma num_samples horizon lam noise_mu
                 umin umax uinit Uinit uscale upc sdd na ac"
    and "(umin = None \<and> umax = Some b) \<or> (umin = Some b \<and> umax = None)"
    and "j < length b"
  shows "(umin = None \<longrightarrow> u_max c = Some b \<and> u_min c = Some (map fneg b)
            \<and> (fle (the (u_min c) ! j) (the (u_max c) ! j) \<longleftrightarrow> fle (Fin 0) (b ! j)))
       \<and> (umax = None \<longrightarrow> u_min c = Some b \<and> u_max c = Some (map fneg b)
            \<and> (fle (the (u_min c) ! j) (the (u_max c) ! j) \<longleftrightarrow> fle (b ! j) (Fin 0)))"
  using assms(2,3) unfolding assms(1) init_u_min init_u_max
  by (auto simp: init_bounds_def Let_def fle_fneg_upper fle_fneg_lower)

theorem init_bounds_by_negation_witness:
  "u_max ex_c = Some [Fin 1] \<and> u_min ex_c = Some [Fin (- 1)]
   \<and> u_min ex_neg = Some (map fneg [Fin (- 1)]) \<and> u_max ex_neg = Some [Fin (- 1)]
   \<and> (fle (the (u_min ex_neg) ! 0) (the (u_max ex_neg) ! 0) \<longleftrightarrow> fle (Fin 0) ([Fin (- 1)] ! 0))"
  using init_bounds_by_negation[where c=ex_neg and umin=None and umax="Some [Fin (- 1)]"
      and b="[Fin (- 1)]" and j=0, OF ex_neg_def]
  by (simp add: ex_c_fields)

section \<open>The null action\<close>

lemma perturb_last_zero:
  assumes "sample_null_action c" "0 < K c" "length sample = K c"
  shows "perturb c sample ! (K c - 1)
         = map (map (\<lambda>x. Fin 0)) (map2 vadd (U c) (sample ! (K c - 1)))"
  using assms by (simp add: perturb_def Let_def)

lemma shifted_well_shaped:
  assumes "well_shaped c" "0 < T c"
  shows "length (shift_U c) = T c" "list_all (\<lambda>r. length r = nu c) (shift_U c)"
proof -
  from assms obtain r rs where u: "U c = r # rs" by (cases "U c") (auto simp: well_shaped_def)
  show "length (shift_U c) = T c"
    using assms u by (simp add: shift_U_def roll_left_def well_shaped_def)
  show "list_all (\<lambda>r. length r = nu c) (shift_U c)"
    using assms u by (auto simp: shift_U_def roll_left_def well_shaped_def list_all_iff
        dest: in_set_butlastD)
qed

text \<open>
  C6, the claim as stated fails: with \<open>u_init = [1]\<close> and the null action sampled, the
  last trajectory of the perturbed actions that \<^verbatim>\<open>command\<close> forms is zero, not
  \<open>u_init\<close>.
\<close>

theorem null_action_is_not_u_init:
  "sample_null_action ex_null \<and> u_init ex_null = [Fin 1]
   \<and> perturb (shifted ex_null (Vec [Fin 0])) ex_sample ! (K ex_null - 1) = [[Fin 0]]
   \<and> perturb (shifted ex_null (Vec [Fin 0])) ex_sample ! (K ex_null - 1)
       \<noteq> replicate (T ex_null) (u_init ex_null)"
  by (simp add: ex_null_def ex_c_fields perturb_def shifted_def shift_U_def roll_left_def
      ex_sample_def vadd_def Let_def)

text \<open>
  C6, amended. When the null action is sampled, the last of the \<open>K\<close> trajectories of
  the perturbed actions that \<^verbatim>\<open>command\<close> forms before clamping is zero at all \<open>T\<close>
  timesteps and in every control dimension; this is \<open>u_init\<close> when \<open>u_init\<close> is
  zero, its default.
\<close>

theorem null_action_is_zero:
  assumes "well_shaped c" and "sample_shape c sample" and "0 < K c" and "0 < T c"
    and "sample_null_action c"
  shows "perturb (shifted c st) sample ! (K c - 1) = replicate (T c) (replicate (nu c) (Fin 0))
       \<and> (u_init c = replicate (nu c) (Fin 0) \<longrightarrow>
            perturb (shifted c st) sample ! (K c - 1) = replicate (T c) (u_init c))"
proof -
  let ?tr = "sample ! (K c - 1)"
  have ls: "length sample = K c" using assms(2) by (simp add: sample_shape_def)
  then have "?tr \<in> set sample" using assms(3) by simp
  then have tr: "length ?tr = T c" "\<forall>v\<in>set ?tr. length v = nu c"
    using assms(2) by (auto simp: sample_shape_def list_all_iff)
  note su = shifted_well_shaped[OF assms(1,4)]
  have "perturb (shifted c st) sample ! (K c - 1)
      = map (map (\<lambda>x. Fin 0)) (map2 vadd (shift_U c) ?tr)"
    using perturb_last_zero[of "shifted c st" sample] assms(3,5) ls by (simp add: shifted_simps)
  also have "\<dots> = replicate (T c) (replicate (nu c) (Fin 0))"
  proof (rule nth_equalityI)
    show "length (map (map (\<lambda>x. Fin 0)) (map2 vadd (shift_U c) ?tr))
        = length (replicate (T c) (replicate (nu c) (Fin 0)))"
      using su(1) tr(1) by simp
  next
    fix i assume "i < length (map (map (\<lambda>x. Fin 0)) (map2 vadd (shift_U c) ?tr))"
    then have i: "i < T c" using su(1) tr(1) by simp
    then have "length (shift_U c ! i) = nu c" "length (?tr ! i) = nu c"
      using su tr by (auto simp: list_all_iff)
    then show "map (map (\<lambda>x. Fin 0)) (map2 vadd (shift_U c) ?tr) ! i
        = replicate (T c) (replicate (nu c) (Fin 0)) ! i"
      using i su(1) tr(1) by (simp add: length_vadd map_replicate_const)
  qed
  finally show ?thesis by simp
qed

theorem null_action_is_zero_witness:
  "perturb (shifted (ex_c\<lparr>sample_null_action := True\<rparr>) (Vec [Fin 0])) ex_sample ! 1 = [[Fin 0]]
   \<and> perturb (shifted (ex_c\<lparr>sample_null_action := True\<rparr>) (Vec [Fin 0])) ex_sample ! 1
       = [u_init ex_c]"
  using null_action_is_zero[where c="ex_c\<lparr>sample_null_action := True\<rparr>" and sample=ex_sample
      and st="Vec [Fin 0]"]
  by (simp add: ex_c_fields well_shaped_def sample_shape_def ex_sample_def tc_ok_def)

section \<open>The shift and the weighted update\<close>

lemma update_loop_length: "length (update_loop om nse ts u) = length u"
  by (induction ts arbitrary: u) simp_all

lemma update_loop_other:
  "t \<notin> set ts \<Longrightarrow> update_loop om nse ts u ! t = u ! t"
  by (induction ts arbitrary: u) simp_all

lemma update_loop_nth:
  "distinct ts \<Longrightarrow> t \<in> set ts \<Longrightarrow> t < length u \<Longrightarrow>
   update_loop om nse ts u ! t = vadd (u ! t) (weighted_noise om nse (length (u ! t)) t)"
proof (induction ts arbitrary: u)
  case Nil
  then show ?case by simp
next
  case (Cons a ts)
  show ?case
  proof (cases "t = a")
    case True
    then have "t \<notin> set ts" using Cons.prems(1) by simp
    then show ?thesis using True Cons.prems(3) by (simp add: update_loop_other)
  next
    case False
    then have "t \<in> set ts" using Cons.prems(2) by simp
    then show ?thesis using False Cons by simp
  qed
qed

lemma vadd_nth: "j < length u \<Longrightarrow> j < length v \<Longrightarrow> vadd u v ! j = fadd (u ! j) (v ! j)"
  by (simp add: vadd_def)

lemma sum_dim0_length: "\<forall>r\<in>set m. length r = n \<Longrightarrow> length (sum_dim0 n m) = n"
  by (induction m) (simp_all add: sum_dim0_def length_vadd)

lemma sum_dim0_nth:
  "\<forall>r\<in>set m. length r = n \<Longrightarrow> j < n \<Longrightarrow> sum_dim0 n m ! j = fsum (map (\<lambda>r. r ! j) m)"
proof (induction m)
  case Nil
  then show ?case by (simp add: sum_dim0_def fsum_def)
next
  case (Cons a m)
  have l: "length (sum_dim0 n m) = n" using Cons.prems(1) by (simp add: sum_dim0_length)
  have "sum_dim0 n (a # m) ! j = vadd a (sum_dim0 n m) ! j" by (simp add: sum_dim0_def)
  also have "\<dots> = fadd (a ! j) (sum_dim0 n m ! j)"
    using Cons.prems l by (simp add: vadd_nth)
  finally show ?case using Cons by (simp add: fsum_def)
qed

lemma weighted_noise_nth:
  assumes "length om = k" "length nse = k"
    and "\<forall>i<k. length (nse ! i ! t) = n" and "j < n"
  shows "weighted_noise om nse n t ! j = fsum (map (\<lambda>i. fmul (om ! i) (nse ! i ! t ! j)) [0..<k])"
proof -
  let ?m = "map2 vscale om (slice_t nse t)"
  have len: "length ?m = k" using assms(1,2) by (simp add: slice_t_def)
  have row: "\<And>i. i < k \<Longrightarrow> ?m ! i = vscale (om ! i) (nse ! i ! t)"
    using assms(1,2) by (simp add: slice_t_def)
  have "\<forall>r\<in>set ?m. length r = n"
  proof
    fix r assume "r \<in> set ?m"
    then obtain i where "i < k" "r = ?m ! i" using len by (metis in_set_conv_nth)
    then show "length r = n" using row assms(3) by (simp add: vscale_def)
  qed
  then have "weighted_noise om nse n t ! j = fsum (map (\<lambda>r. r ! j) ?m)"
    using assms(4) by (simp add: weighted_noise_def sum_dim0_nth)
  also have "map (\<lambda>r. r ! j) ?m = map (\<lambda>i. fmul (om ! i) (nse ! i ! t ! j)) [0..<k]"
  proof (rule nth_equalityI)
    show "length (map (\<lambda>r. r ! j) ?m) = length (map (\<lambda>i. fmul (om ! i) (nse ! i ! t ! j)) [0..<k])"
      using len by simp
  next
    fix i assume "i < length (map (\<lambda>r. r ! j) ?m)"
    then have i: "i < k" by (metis len length_map)
    then have "map (\<lambda>r. r ! j) ?m ! i = vscale (om ! i) (nse ! i ! t) ! j"
      using len row by simp
    also have "\<dots> = fmul (om ! i) (nse ! i ! t ! j)"
      using assms(3,4) i by (simp add: vscale_def)
    finally show "map (\<lambda>r. r ! j) ?m ! i = map (\<lambda>i. fmul (om ! i) (nse ! i ! t ! j)) [0..<k] ! i"
      using i by simp
  qed
  finally show ?thesis .
qed

lemma clamp_vec_length: "length (clamp_vec lo hi v) = length v"
  by (simp add: clamp_vec_def)

lemma clamp_vec_nth:
  "j < length v \<Longrightarrow> clamp_vec lo hi v ! j = fclamp (bound_at lo j) (bound_at hi j) (v ! j)"
  by (simp add: clamp_vec_def)

lemma perturb_nth:
  assumes "i < length sample"
  shows "perturb c sample ! i =
     (if sample_null_action c \<and> i = K c - 1
      then map (map (\<lambda>x. Fin 0)) (map2 vadd (U c) (sample ! i))
      else map2 vadd (U c) (sample ! i))"
  using assms by (auto simp: perturb_def Let_def nth_list_update)

lemma perturb_nth_length:
  assumes "i < length sample"
  shows "length (perturb c sample ! i) = length (map2 vadd (U c) (sample ! i))"
    and "s < length (map2 vadd (U c) (sample ! i)) \<Longrightarrow>
         length (perturb c sample ! i ! s) = length (map2 vadd (U c) (sample ! i) ! s)"
  unfolding perturb_nth[OF assms] by auto

lemma perturb_shape:
  assumes "length u = t" "\<forall>r\<in>set u. length r = n" "U c = u"
    and "sample_shape c' sample" "K c' = k" "T c' = t" "nu c' = n"
    and "i < k" "s < t"
  shows "length (perturb c sample ! i) = t" "length (perturb c sample ! i ! s) = n"
proof -
  have ls: "length sample = k" using assms(4,5) by (simp add: sample_shape_def)
  then have "sample ! i \<in> set sample" using assms(8) by simp
  then have tr: "length (sample ! i) = t" "\<forall>v\<in>set (sample ! i). length v = n"
    using assms(4,6,7) by (auto simp: sample_shape_def list_all_iff)
  have l: "length (map2 vadd u (sample ! i)) = t" using assms(1) tr(1) by simp
  have e: "length (map2 vadd u (sample ! i) ! s) = n"
    using assms(1,2,9) tr by (simp add: length_vadd)
  have i: "i < length sample" using ls assms(8) by simp
  show "length (perturb c sample ! i) = t"
    using l perturb_nth_length(1)[OF i, of c] assms(3) by simp
  show "length (perturb c sample ! i ! s) = n"
    using l e perturb_nth_length(2)[OF i, of s c] assms(3,9) by simp
qed

lemma eff_noise_nth:
  assumes "i < length sample" "s < length (perturb c sample ! i)" "s < length (U c)"
  shows "eff_noise c sample ! i ! s
         = vsub (clamp_vec (u_min c) (u_max c) (perturb c sample ! i ! s)) (U c ! s)"
  using assms by (simp add: eff_noise_def clamped_def length_perturb)

lemma weights_length: "length (weights lam ct) = length ct"
  by (simp add: weights_def Let_def vscale_def ensure_non_zero_def)

lemma vsub_length: "length (vsub u v) = min (length u) (length v)"
  by (simp add: vsub_def)

lemma vsub_nth: "j < length u \<Longrightarrow> j < length v \<Longrightarrow> vsub u v ! j = fsub (u ! j) (v ! j)"
  by (simp add: vsub_def)

lemma weighted_noise_length:
  assumes "length om = k" "length nse = k" "\<forall>i<k. length (nse ! i ! t) = n"
  shows "length (weighted_noise om nse n t) = n"
proof -
  let ?m = "map2 vscale om (slice_t nse t)"
  have len: "length ?m = k" using assms(1,2) by (simp add: slice_t_def)
  have row: "\<And>i. i < k \<Longrightarrow> ?m ! i = vscale (om ! i) (nse ! i ! t)"
    using assms(1,2) by (simp add: slice_t_def)
  have "\<forall>r\<in>set ?m. length r = n"
  proof
    fix r assume "r \<in> set ?m"
    then obtain i where "i < k" "r = ?m ! i" using len by (metis in_set_conv_nth)
    then show "length r = n" using row assms(3) by (simp add: vscale_def)
  qed
  then show ?thesis by (simp add: weighted_noise_def sum_dim0_length)
qed

lemma shift_U_nth:
  assumes "well_shaped c" "t < T c"
  shows "shift_U c ! t = (if t + 1 < T c then U c ! (t + 1) else u_init c)"
proof -
  from assms obtain r rs where u: "U c = r # rs" by (cases "U c") (auto simp: well_shaped_def)
  then have l: "length rs + 1 = T c" using assms(1) by (auto simp: well_shaped_def)
  show ?thesis
  proof (cases "t + 1 < T c")
    case True
    then have "t < length rs" using l by simp
    then show ?thesis using True u by (simp add: shift_U_def roll_left_def nth_append)
  next
    case False
    then have "t = length rs" using l assms(2) by simp
    then show ?thesis using False u by (simp add: shift_U_def roll_left_def nth_append)
  qed
qed

lemma eff_noise_shape:
  assumes "well_shaped c" "sample_shape c sample" "0 < T c" "i < K c" "t < T c"
  shows "length (eff_noise (shifted c st) sample) = K c"
    and "length (eff_noise (shifted c st) sample ! i ! t) = nu c"
    and "eff_noise (shifted c st) sample ! i ! t
         = vsub (clamped (shifted c st) sample ! i ! t) (shift_U c ! t)"
    and "length (clamped (shifted c st) sample ! i ! t) = nu c"
proof -
  note su = shifted_well_shaped[OF assms(1,3)]
  have ls: "length sample = K c" using assms(2) by (simp add: sample_shape_def)
  have su2: "\<forall>r\<in>set (shift_U c). length r = nu c" using su(2) by (simp add: list_all_iff)
  have ps: "length (perturb (shifted c st) sample ! i) = T c"
    "length (perturb (shifted c st) sample ! i ! t) = nu c"
    using perturb_shape[OF su(1) su2 _ assms(2) refl refl refl assms(4,5), of "shifted c st"]
    by (simp_all add: shifted_simps)
  show "length (eff_noise (shifted c st) sample) = K c"
    by (simp add: eff_noise_def clamped_def length_perturb ls)
  have cl: "clamped (shifted c st) sample ! i ! t
      = clamp_vec (u_min c) (u_max c) (perturb (shifted c st) sample ! i ! t)"
    using ps(1) assms(4,5) ls by (simp add: clamped_def length_perturb shifted_simps)
  show e: "eff_noise (shifted c st) sample ! i ! t
         = vsub (clamped (shifted c st) sample ! i ! t) (shift_U c ! t)"
    using eff_noise_nth[of i sample t "shifted c st"] ps(1) su(1) assms(4,5) ls cl
    by (simp add: shifted_simps)
  show c: "length (clamped (shifted c st) sample ! i ! t) = nu c"
    using cl ps(2) by (simp add: clamp_vec_length)
  have "length (shift_U c ! t) = nu c" using su assms(5) by (simp add: list_all_iff)
  then show "length (eff_noise (shifted c st) sample ! i ! t) = nu c"
    using e c by (simp add: vsub_length)
qed

lemma command_update_entry:
  assumes "well_shaped c" and "configured c" and "sample_shape c sample"
    and "t < T c" and "j < nu c"
  shows "\<exists>ct.
           cost_total (fst (command c st sample)) = Some ct \<and> length ct = K c
         \<and> omega (fst (command c st sample)) = Some (weights (lambda c) ct)
         \<and> noise (fst (command c st sample)) = Some (eff_noise (shifted c st) sample)
         \<and> perturbed_action (fst (command c st sample)) = Some (clamped (shifted c st) sample)
         \<and> length (U (fst (command c st sample))) = T c
         \<and> U (fst (command c st sample)) ! t ! j =
             fadd ((if t + 1 < T c then U c ! (t + 1) else u_init c) ! j)
                  (fsum (map (\<lambda>k. fmul (weights (lambda c) ct ! k)
                                      (eff_noise (shifted c st) sample ! k ! t ! j)) [0..<K c]))
         \<and> (\<forall>k<K c. eff_noise (shifted c st) sample ! k ! t ! j =
               fsub (clamped (shifted c st) sample ! k ! t ! j)
                    ((if t + 1 < T c then U c ! (t + 1) else u_init c) ! j))"
proof -
  have ls: "length sample = K c" using assms(3) by (simp add: sample_shape_def)
  have T0: "0 < T c" using assms(4) by simp
  have r: "runs c sample" using assms(1,2) ls by (rule runs_intro)
  from command_fields[OF r, of st] obtain ct where ct: "length ct = K c"
    and cst: "cost_total (fst (command c st sample)) = Some ct"
    and om: "omega (fst (command c st sample)) = Some (weights (lambda c) ct)"
    and ns: "noise (fst (command c st sample)) = Some (eff_noise (shifted c st) sample)"
    and pa: "perturbed_action (fst (command c st sample)) = Some (clamped (shifted c st) sample)"
    and u: "U (fst (command c st sample))
          = update_loop (weights (lambda c) ct) (eff_noise (shifted c st) sample) [0..<T c] (shift_U c)"
    by blast
  let ?om = "weights (lambda c) ct"
  let ?nse = "eff_noise (shifted c st) sample"
  let ?sh = "if t + 1 < T c then U c ! (t + 1) else u_init c"
  note su = shifted_well_shaped[OF assms(1) T0]
  have sht: "shift_U c ! t = ?sh" by (rule shift_U_nth[OF assms(1,4)])
  have lsh: "length (shift_U c ! t) = nu c" using su assms(4) by (simp add: list_all_iff)
  have lom: "length ?om = K c" using ct by (simp add: weights_length)
  have K0: "0 < K c" using assms(2) by (simp add: configured_def)
  have lns: "length ?nse = K c" by (rule eff_noise_shape(1)[OF assms(1,3) T0 K0 assms(4)])
  have rows: "\<forall>i<K c. length (?nse ! i ! t) = nu c"
    using eff_noise_shape(2)[OF assms(1,3) T0 _ assms(4)] by simp
  have "U (fst (command c st sample)) ! t
      = vadd (shift_U c ! t) (weighted_noise ?om ?nse (length (shift_U c ! t)) t)"
    unfolding u using assms(4) su(1) by (simp add: update_loop_nth)
  then have "U (fst (command c st sample)) ! t ! j
      = fadd (shift_U c ! t ! j) (weighted_noise ?om ?nse (nu c) t ! j)"
    using lsh assms(5) weighted_noise_length[OF lom lns rows] by (simp add: vadd_nth)
  then have main: "U (fst (command c st sample)) ! t ! j
      = fadd (?sh ! j) (fsum (map (\<lambda>k. fmul (?om ! k) (?nse ! k ! t ! j)) [0..<K c]))"
    using weighted_noise_nth[OF lom lns rows assms(5)] sht by simp
  have eff: "\<forall>k<K c. ?nse ! k ! t ! j = fsub (clamped (shifted c st) sample ! k ! t ! j) (?sh ! j)"
  proof (intro allI impI)
    fix k assume k: "k < K c"
    note e = eff_noise_shape[OF assms(1,3) T0 k assms(4), of st]
    show "?nse ! k ! t ! j = fsub (clamped (shifted c st) sample ! k ! t ! j) (?sh ! j)"
      using e(3,4) lsh assms(5) sht by (simp add: vsub_nth)
  qed
  have lu: "length (U (fst (command c st sample))) = T c"
    unfolding u using su(1) by (simp add: update_loop_length)
  show ?thesis
    using cst ct om ns pa lu main eff by blast
qed

section \<open>Total costs that are not finite\<close>

lemma fadd_NaN_right: "fadd x NaN = NaN"
  by (cases x) simp_all

lemma fmul_NaN_right: "fmul x NaN = NaN"
  by (cases x) simp_all

lemma fdiv_NaN_right: "fdiv x NaN = NaN"
  by (cases x) simp_all

lemma is_nan_iff: "is_nan x \<longleftrightarrow> x = NaN"
  by (cases x) simp_all

lemma fsum_has_nan: "NaN \<in> set xs \<Longrightarrow> fsum xs = NaN"
proof (induction xs)
  case Nil
  then show ?case by simp
next
  case (Cons a xs)
  show ?case
  proof (cases "a = NaN")
    case True
    then show ?thesis by (simp add: fsum_def)
  next
    case False
    then have "fsum xs = NaN" using Cons by simp
    then show ?thesis by (simp add: fsum_def fadd_NaN_right)
  qed
qed

lemma fmin_list_cases: "xs \<noteq> [] \<Longrightarrow> fmin_list xs = NaN \<or> fmin_list xs \<in> set xs"
proof (induction xs rule: list_nonempty_induct)
  case (single x)
  then show ?case by simp
next
  case (cons x xs)
  then obtain y ys where xs: "xs = y # ys" by (cases xs) auto
  have "fmin_list (x # xs) = fmin2 x (fmin_list xs)" by (simp add: xs)
  then show ?case using cons(2) by (auto simp: fmin2_def)
qed

lemma nonfinite_min_nan:
  assumes "ct \<noteq> []" "\<not> is_finite (fmin_list ct)"
  shows "\<exists>x\<in>set ct. fsub x (fmin_list ct) = NaN"
proof (cases "fmin_list ct = NaN")
  case True
  moreover have "hd ct \<in> set ct" using assms(1) by simp
  ultimately show ?thesis by (auto simp: fsub_def fadd_NaN_right)
next
  case False
  then have m: "fmin_list ct \<in> set ct" using fmin_list_cases[OF assms(1)] by simp
  have "fsub (fmin_list ct) (fmin_list ct) = NaN"
    using assms(2) False by (cases "fmin_list ct") (simp_all add: fsub_def)
  then show ?thesis using m by blast
qed

lemma weights_nonfinite:
  assumes "ct \<noteq> []" "\<not> is_finite (fmin_list ct)"
  shows "weights lam ct = replicate (length ct) NaN"
proof -
  let ?cnz = "ensure_non_zero ct (fmin_list ct) (fdiv (Fin 1) lam)"
  from nonfinite_min_nan[OF assms] obtain x where x: "x \<in> set ct" "fsub x (fmin_list ct) = NaN"
    by blast
  have "fexp (fmul (fneg (fdiv (Fin 1) lam)) (fsub x (fmin_list ct))) \<in> set ?cnz"
    using x(1) by (simp add: ensure_non_zero_def)
  then have "NaN \<in> set ?cnz" using x(2) by (simp add: fmul_NaN_right)
  then have "fsum ?cnz = NaN" by (rule fsum_has_nan)
  then have "weights lam ct = map (\<lambda>y. NaN) ?cnz"
    by (simp add: weights_def Let_def vscale_def fdiv_NaN_right)
  then show ?thesis by (simp add: map_replicate_const ensure_non_zero_def)
qed

lemma command_nonfinite_entry:
  assumes "well_shaped c" and "configured c" and "sample_shape c sample"
    and "t < T c" and "j < nu c"
    and "cost_total (fst (command c st sample)) = Some ct"
    and "\<not> is_finite (fmin_list ct)"
  shows "omega (fst (command c st sample)) = Some (replicate (K c) NaN)"
    and "U (fst (command c st sample)) ! t ! j = NaN"
proof -
  have K0: "0 < K c" using assms(2) by (simp add: configured_def)
  from command_update_entry[OF assms(1-5), of st] assms(6)
  have len: "length ct = K c"
    and om: "omega (fst (command c st sample)) = Some (weights (lambda c) ct)"
    and u: "U (fst (command c st sample)) ! t ! j =
             fadd ((if t + 1 < T c then U c ! (t + 1) else u_init c) ! j)
                  (fsum (map (\<lambda>k. fmul (weights (lambda c) ct ! k)
                                      (eff_noise (shifted c st) sample ! k ! t ! j)) [0..<K c]))"
    by auto
  have ne: "ct \<noteq> []" using len K0 by auto
  have w: "weights (lambda c) ct = replicate (K c) NaN"
    using weights_nonfinite[OF ne assms(7)] len by simp
  show "omega (fst (command c st sample)) = Some (replicate (K c) NaN)"
    using om w by simp
  have "map (\<lambda>k. fmul (weights (lambda c) ct ! k)
              (eff_noise (shifted c st) sample ! k ! t ! j)) [0..<K c]
      = map (\<lambda>k. NaN) [0..<K c]"
    by (rule map_cong[OF refl]) (simp add: w)
  also have "\<dots> = replicate (K c) NaN" by (simp add: map_replicate_const)
  finally have "fsum (map (\<lambda>k. fmul (weights (lambda c) ct ! k)
              (eff_noise (shifted c st) sample ! k ! t ! j)) [0..<K c]) = NaN"
    using K0 by (simp add: fsum_has_nan)
  then show "U (fst (command c st sample)) ! t ! j = NaN"
    using u by (simp add: fadd_NaN_right)
qed

lemma ex_inf_fields:
  "K ex_inf = 2" "T ex_inf = 1" "nu ex_inf = 1" "U ex_inf = [[Fin 0]]" "u_init ex_inf = [Fin 0]"
  "u_min ex_inf = Some [Fin (- 1)]" "u_max ex_inf = Some [Fin 1]" "lambda ex_inf = Fin 1"
  "trajectory_cost ex_inf = Some (\<lambda>sts acts. [PInf, PInf])" "sample_null_action ex_inf = False"
  "noise_abs_cost ex_inf = False" "noise_sigma_inv ex_inf = [[Fin 1]]" "u_scale ex_inf = Fin 1"
  by (simp_all add: ex_inf_def ex_c_fields)

lemma ex_inf_ok: "well_shaped ex_inf" "configured ex_inf" "sample_shape ex_inf ex_sample"
  by (simp_all add: well_shaped_def configured_def sample_shape_def ex_inf_fields tc_ok_def
      ex_sample_def)

lemma ex_inf_cost:
  "snd (compute_total_cost_batch (shifted ex_inf st) ex_sample) = Inr [PInf, PInf]"
  by (simp add: compute_total_cost_batch_def shifted_def shift_U_def roll_left_def ex_inf_fields
      ex_sample_def perturb_def clamp_def clamp_vec_def fclamp_def bound_at_def fmax2_def fmin2_def
      vadd_def vsub_def fsub_def vscale_def vec_mat_def sum_dim0_def fsum_def stack1_def slice_t_def
      Let_def numeral_2_eq_2 split: prod.splits)

lemma ex_inf_cost_total:
  "cost_total (fst (command ex_inf st ex_sample)) = Some [PInf, PInf]"
proof -
  have "runs ex_inf ex_sample"
    by (rule runs_intro) (simp_all add: ex_inf_ok ex_sample_def ex_inf_fields)
  from command_fields[OF this, of st] show ?thesis by (auto simp: ex_inf_cost)
qed

text \<open>
  C4, the claim as stated fails: when the trajectory cost is infinite for both samples,
  the total costs are infinite and the call replaces the entry \<open>0\<close> of \<open>U\<close> by NaN.
\<close>

theorem nonfinite_costs_corrupt_U:
  "cost_total (fst (command ex_inf (Vec [Fin 0]) ex_sample)) = Some [PInf, PInf]
   \<and> U ex_inf ! 0 ! 0 = Fin 0
   \<and> U (fst (command ex_inf (Vec [Fin 0]) ex_sample)) ! 0 ! 0 = NaN
   \<and> U (fst (command ex_inf (Vec [Fin 0]) ex_sample)) \<noteq> U ex_inf"
proof -
  have "U (fst (command ex_inf (Vec [Fin 0]) ex_sample)) ! 0 ! 0 = NaN"
    by (rule command_nonfinite_entry(2)[OF ex_inf_ok _ _ ex_inf_cost_total])
      (simp_all add: ex_inf_fields fmin2_def)
  moreover have "U ex_inf ! 0 ! 0 = Fin 0" by (simp add: ex_inf_fields)
  ultimately show ?thesis using ex_inf_cost_total by auto
qed

text \<open>
  C4, amended. A call whose total costs are not all finite is not rejected. When the
  least total cost is not finite (a cost is NaN or \<open>-inf\<close>, or all are \<open>+inf\<close>), every
  weight is NaN and the call that reaches the update leaves NaN in every entry of \<open>U\<close>.
\<close>

theorem command_nonfinite_costs_not_rejected:
  assumes "well_shaped c" and "configured c" and "sample_shape c sample"
    and "t < T c" and "j < nu c"
    and "cost_total (fst (command c st sample)) = Some ct"
    and "\<not> is_finite (fmin_list ct)"
  shows "omega (fst (command c st sample)) = Some (replicate (K c) NaN)
       \<and> U (fst (command c st sample)) ! t ! j = NaN"
  using command_nonfinite_entry[OF assms] by simp

theorem command_nonfinite_costs_not_rejected_witness:
  "omega (fst (command ex_inf (Vec [Fin 0]) ex_sample)) = Some [NaN, NaN]
   \<and> U (fst (command ex_inf (Vec [Fin 0]) ex_sample)) ! 0 ! 0 = NaN"
  using command_nonfinite_costs_not_rejected[OF ex_inf_ok _ _ ex_inf_cost_total, of 0 0 "Vec [Fin 0]"]
  by (simp add: ex_inf_fields numeral_2_eq_2 fmin2_def)

section \<open>Calls that raise\<close>

lemma ctcb_frame:
  "nx (fst (compute_total_cost_batch c sample)) = nx c"
  "u_scale (fst (compute_total_cost_batch c sample)) = u_scale c"
  "u_per_command (fst (compute_total_cost_batch c sample)) = u_per_command c"
  "F (fst (compute_total_cost_batch c sample)) = F c"
  "step_dependency (fst (compute_total_cost_batch c sample)) = step_dependency c"
  by (simp_all add: compute_total_cost_batch_def Let_def split: sum.splits prod.splits option.splits)

lemma command_snd:
  assumes "runs c sample"
  shows "snd (command c st sample) =
           (case snd (get_rollouts (fst (command c st sample)) st 1) of
              Inl e \<Rightarrow> Inl e
            | Inr ro \<Rightarrow> Inr (first_actions (fst (command c st sample)), ro))"
    and "nx (fst (command c st sample)) = nx c"
    and "u_scale (fst (command c st sample)) = u_scale c"
    and "F (fst (command c st sample)) = F c"
    and "step_dependency (fst (command c st sample)) = step_dependency c"
    and "u_per_command (fst (command c st sample)) = u_per_command c"
proof -
  from assms have r: "0 < K c" "0 < T c" "U c \<noteq> []" "u_min c \<noteq> None \<or> u_max c \<noteq> None"
    "lambda c \<noteq> Fin 0" "length sample = K c" "tc_ok c"
    by (simp_all add: runs_def)
  from ctcb_fields[of "shifted c st" sample] r
  obtain ct where ct:
    "compute_total_cost_batch (shifted c st) sample
       = (fst (compute_total_cost_batch (shifted c st) sample), Inr ct)"
    "length ct = K c"
    "T (fst (compute_total_cost_batch (shifted c st) sample)) = T c"
    "lambda (fst (compute_total_cost_batch (shifted c st) sample)) = lambda c"
    by (auto simp: shifted_simps)
  have ne: "ct \<noteq> []" using ct(2) r(1) by auto
  have rl: "roll_left (U c) \<noteq> []" using r(3) by (simp add: roll_left_def split: list.splits)
  define c4 where "c4 = fst (compute_total_cost_batch (shifted c st) sample)"
  have e: "compute_total_cost_batch (c\<lparr>U := butlast (roll_left (U c)) @ [u_init c], state := Some st\<rparr>) sample
      = (c4, Inr ct)"
    using ct(1) unfolding shifted_def shift_U_def c4_def by simp
  have fr: "nx c4 = nx c" "u_scale c4 = u_scale c" "F c4 = F c"
    "step_dependency c4 = step_dependency c" "u_per_command c4 = u_per_command c"
    unfolding c4_def by (simp_all add: ctcb_frame shifted_def)
  define c7 where "c7 = c4\<lparr>cost_total_non_zero := Some (ensure_non_zero ct (fmin_list ct) (fdiv (Fin 1) (lambda c4))),
         omega := Some (vscale (fdiv (Fin 1) (fsum (ensure_non_zero ct (fmin_list ct) (fdiv (Fin 1) (lambda c4)))))
            (ensure_non_zero ct (fmin_list ct) (fdiv (Fin 1) (lambda c4)))),
         U := update_loop (vscale (fdiv (Fin 1) (fsum (ensure_non_zero ct (fmin_list ct) (fdiv (Fin 1) (lambda c4)))))
            (ensure_non_zero ct (fmin_list ct) (fdiv (Fin 1) (lambda c4)))) (the (noise c4)) [0..<T c4] (U c4)\<rparr>"
  have l4: "lambda c4 \<noteq> Fin 0" using ct(4) r(5) unfolding c4_def by simp
  have f: "fst (command c st sample) = c7"
    using ne l4 unfolding c7_def
    by (simp add: command_def Let_def rl e split_beta get_rollouts_frame)
  have "snd (command c st sample) =
           (case snd (get_rollouts c7 st 1) of
              Inl e \<Rightarrow> Inl e
            | Inr ro \<Rightarrow> Inr (first_actions c7, ro))"
    using ne l4 unfolding c7_def
    by (simp add: command_def Let_def rl e split_beta cong: sum.case_cong)
  then show "snd (command c st sample) =
           (case snd (get_rollouts (fst (command c st sample)) st 1) of
              Inl e \<Rightarrow> Inl e
            | Inr ro \<Rightarrow> Inr (first_actions (fst (command c st sample)), ro))"
    unfolding f .
  show "nx (fst (command c st sample)) = nx c" "u_scale (fst (command c st sample)) = u_scale c"
    "F (fst (command c st sample)) = F c"
    "step_dependency (fst (command c st sample)) = step_dependency c"
    "u_per_command (fst (command c st sample)) = u_per_command c"
    unfolding f using fr by (simp_all add: c7_def)
qed

lemma length_concat_rows: "\<forall>r\<in>set rows. length r = n \<Longrightarrow> length (concat rows) = length rows * n"
  by (induction rows) simp_all

lemma get_rollouts_batch_raises:
  assumes "0 < nx c" "\<forall>r\<in>set rows. length r = nx c" "1 < length rows"
  shows "snd (get_rollouts c (Mat rows) 1) = Inl RuntimeError"
proof -
  have l: "length (concat rows) = length rows * nx c" by (rule length_concat_rows[OF assms(2)])
  have "view_cols (nx c) (flatten (Mat rows)) = Inr (chunks (nx c) (concat rows))"
    using assms(1) l by (simp add: view_cols_def flatten_def)
  moreover have "length (chunks (nx c) (concat rows)) = length rows"
    using assms(1) l by (simp add: chunks_def)
  ultimately show ?thesis using assms(3) by (simp add: get_rollouts_def Let_def)
qed

lemma command_unbounded_raises:
  assumes "u_min c = None" "u_max c = None" "U c \<noteq> []" "\<not> (sample_null_action c \<and> K c = 0)"
  shows "snd (command c st sample) = Inl RuntimeError"
proof -
  have rl: "roll_left (U c) \<noteq> []" using assms(3) by (simp add: roll_left_def split: list.splits)
  have "snd (compute_total_cost_batch (c\<lparr>U := butlast (roll_left (U c)) @ [u_init c], state := Some st\<rparr>) sample)
      = Inl RuntimeError"
    using assms by (simp add: compute_total_cost_batch_def Let_def clamp_def)
  then obtain c4 where "compute_total_cost_batch
      (c\<lparr>U := butlast (roll_left (U c)) @ [u_init c], state := Some st\<rparr>) sample
      = (c4, Inl RuntimeError)"
    by (metis prod.collapse)
  then show ?thesis
    by (simp add: command_def Let_def rl)
qed

text \<open>
  C5. The docstring of \<^verbatim>\<open>command\<close> admits a state of shape \<open>(K x nx)\<close>. With \<open>K > 1\<close>
  such a call runs the update and then raises: \<^verbatim>\<open>get_rollouts(state)\<close> replays one
  rollout, and the \<open>K\<close> rows do not fit its first slot.
\<close>

theorem command_batch_of_states_raises:
  assumes "well_shaped c" and "configured c" and "length sample = K c"
    and "0 < nx c" and "1 < K c"
    and "length rows = K c" and "list_all (\<lambda>r. length r = nx c) rows"
  shows "snd (command c (Mat rows) sample) = Inl RuntimeError"
proof -
  have r: "runs c sample" using assms(1-3) by (rule runs_intro)
  note s = command_snd[OF r, of "Mat rows"]
  have "snd (get_rollouts (fst (command c (Mat rows) sample)) (Mat rows) 1) = Inl RuntimeError"
    using assms(4-7) by (intro get_rollouts_batch_raises) (simp_all add: s(2) list_all_iff)
  then show ?thesis using s(1) by simp
qed

theorem command_batch_of_states_raises_witness:
  "snd (command ex_c (Mat [[Fin 0], [Fin 1]]) ex_sample) = Inl RuntimeError"
  using command_batch_of_states_raises[OF ex_c_well_shaped ex_c_configured,
      of ex_sample "[[Fin 0], [Fin 1]]"]
  by (simp add: ex_c_fields ex_sample_def ex_c_def init_def Let_def split: prod.splits)

text \<open>
  C3. Constructed without bounds, the controller cannot run \<^verbatim>\<open>command\<close>:
  \<^verbatim>\<open>torch.clamp\<close> raises when both bounds are \<^verbatim>\<open>None\<close>, where the claim expects the
  clamp to change nothing.
\<close>

theorem command_without_bounds_raises:
  "u_min ex_unbounded = None \<and> u_max ex_unbounded = None
   \<and> snd (command ex_unbounded (Vec [Fin 0]) ex_sample) = Inl RuntimeError"
proof -
  have f: "u_min ex_unbounded = None" "u_max ex_unbounded = None" "U ex_unbounded = [[Fin 0]]"
    "K ex_unbounded = 2"
    by (simp_all add: ex_unbounded_def init_def init_bounds_def Let_def)
  then show ?thesis by (simp add: command_unbounded_raises)
qed

section \<open>Rollouts, the dynamics and the cost boundary\<close>

lemma rollout_loop_eq:
  "rollout_loop c pa ts st ss acs =
     (ss @ run_states c pa st ts, acs @ map (\<lambda>t. map (vscale (u_scale c)) (slice_t pa t)) ts)"
  by (induction ts arbitrary: st ss acs) (simp_all add: Let_def)

lemma run_states_cong:
  "u_scale c = u_scale c' \<Longrightarrow> F c = F c' \<Longrightarrow> step_dependency c = step_dependency c' \<Longrightarrow>
   run_states c pa st ts = run_states c' pa st ts"
  by (induction ts arbitrary: st) (simp_all add: Let_def dynamics_def)

lemma run_states_upd:
  "run_states (c\<lparr>cost_total := a\<rparr>) pa st ts = run_states c pa st ts"
  "run_states (c\<lparr>noise := b\<rparr>) pa st ts = run_states c pa st ts"
  "run_states (c\<lparr>perturbed_action := d\<rparr>) pa st ts = run_states c pa st ts"
  by (rule run_states_cong; simp)+

lemma initial_batch_upd: "initial_batch (c\<lparr>cost_total := a\<rparr>) st = initial_batch c st"
  by (cases st) (simp_all add: initial_batch_def)

lemma run_states_length: "length (run_states c pa st ts) = length ts"
  by (induction ts arbitrary: st) (simp_all add: Let_def)

lemma run_states_nth:
  "i < length ts \<Longrightarrow>
   run_states c pa st ts ! i =
     dynamics c (if i = 0 then st else run_states c pa st ts ! (i - 1))
       (map (vscale (u_scale c)) (slice_t pa (ts ! i))) (ts ! i)"
proof (induction ts arbitrary: st i)
  case Nil
  then show ?case by simp
next
  case (Cons t ts)
  show ?case
  proof (cases i)
    case 0
    then show ?thesis by (simp add: Let_def)
  next
    case (Suc i')
    then have i': "i' < length ts" using Cons.prems by simp
    let ?st' = "dynamics c st (map (vscale (u_scale c)) (slice_t pa t)) t"
    have "run_states c pa st (t # ts) ! i = run_states c pa ?st' ts ! i'"
      using Suc by (simp add: Let_def)
    also have "\<dots> = dynamics c (if i' = 0 then ?st' else run_states c pa ?st' ts ! (i' - 1))
       (map (vscale (u_scale c)) (slice_t pa (ts ! i'))) (ts ! i')"
      by (rule Cons.IH[OF i'])
    also have "(if i' = 0 then ?st' else run_states c pa ?st' ts ! (i' - 1))
        = run_states c pa st (t # ts) ! (i - 1)"
      using Suc by (simp add: Let_def nth_Cons')
    finally show ?thesis using Suc by simp
  qed
qed

lemma ctcb_cost:
  assumes "0 < K c" "0 < T c" "u_min c \<noteq> None \<or> u_max c \<noteq> None"
  shows "snd (compute_total_cost_batch c sample) =
           Inr (vadd (case trajectory_cost c of
                        None \<Rightarrow> replicate (K c) (Fin 0)
                      | Some tc \<Rightarrow> vadd (replicate (K c) (Fin 0))
                          (tc (stack1 (K c) (fst (rollout c sample)))
                              (stack1 (K c) (snd (rollout c sample)))))
                     (perturbation_cost c sample))"
    and "actions (fst (compute_total_cost_batch c sample)) =
           Some (map (map (map (\<lambda>x. fdiv x (u_scale c)))) (stack1 (K c) (snd (rollout c sample))))"
  using assms
  by (auto simp: compute_total_cost_batch_def Let_def clamp_def perturb_upd rollout_loop_eq
      run_states_upd initial_batch_upd rollout_def perturbation_cost_def action_cost_def
      eff_noise_def clamped_def split: option.splits)

lemma rollout_eq:
  "rollout c sample =
     (run_states c (clamped c sample) (initial_batch c (the (state c))) [0..<T c],
      map (\<lambda>t. map (vscale (u_scale c)) (slice_t (clamped c sample) t)) [0..<T c])"
  by (simp add: rollout_def rollout_loop_eq)

lemma ex_scaled_fields:
  "K ex_scaled = 2" "T ex_scaled = 1" "nu ex_scaled = 1" "U ex_scaled = [[Fin 0]]"
  "u_init ex_scaled = [Fin 0]" "u_min ex_scaled = Some [Fin (- 1)]" "u_max ex_scaled = Some [Fin 1]"
  "lambda ex_scaled = Fin 1"
  "trajectory_cost ex_scaled = Some (\<lambda>sts acts. [hd (hd (acts ! 0)), hd (hd (acts ! 1))])"
  "sample_null_action ex_scaled = False" "noise_abs_cost ex_scaled = False"
  "noise_sigma_inv ex_scaled = [[Fin 1]]" "u_scale ex_scaled = Fin 2"
  by (simp_all add: ex_scaled_def ex_c_fields)

lemma u_scale_shifted: "u_scale (shifted c st) = u_scale c"
  by (simp add: shifted_def)

lemma ex_scaled_runs: "runs ex_scaled ex_ones"
  by (simp add: runs_def ex_scaled_fields tc_ok_def ex_ones_def)

lemma ex_scaled_cost:
  "snd (compute_total_cost_batch (shifted ex_scaled st) ex_ones) = Inr [Fin 2, Fin 2]"
  by (simp add: compute_total_cost_batch_def shifted_def shift_U_def roll_left_def ex_scaled_fields
      ex_ones_def perturb_def clamp_def clamp_vec_def fclamp_def bound_at_def fmax2_def fmin2_def
      vadd_def vsub_def fsub_def vscale_def vec_mat_def sum_dim0_def fsum_def stack1_def slice_t_def
      Let_def numeral_2_eq_2 split: prod.splits)

lemma ex_scaled_clamped:
  "clamped (shifted ex_scaled st) ex_ones = [[[Fin 1]], [[Fin 1]]]"
  by (simp add: clamped_def shifted_def shift_U_def roll_left_def ex_scaled_fields
      ex_ones_def perturb_def clamp_vec_def fclamp_def bound_at_def fmax2_def fmin2_def
      vadd_def Let_def)

text \<open>
  C7, the claim as stated fails: with \<open>u_scale = 2\<close> and perturbed actions equal to
  \<open>1\<close>, the trajectory cost answers \<open>2\<close>, the first action it was given: it receives the
  actions times \<open>u_scale\<close>, not the perturbed actions with the scale removed.
\<close>

theorem cost_boundary_receives_scaled_actions:
  "u_scale ex_scaled = Fin 2
   \<and> perturbed_action (fst (command ex_scaled (Vec [Fin 0]) ex_ones)) = Some [[[Fin 1]], [[Fin 1]]]
   \<and> cost_total (fst (command ex_scaled (Vec [Fin 0]) ex_ones)) = Some [Fin 2, Fin 2]"
  using command_fields[OF ex_scaled_runs, of "Vec [Fin 0]"]
  by (auto simp: ex_scaled_cost ex_scaled_clamped ex_scaled_fields)

text \<open>
  C7, amended. In every call that reaches the rollouts, at each timestep \<open>t\<close> the
  dynamics boundary is invoked on the previous state batch with the clamped perturbed
  action of \<open>t\<close> times \<open>u_scale\<close>; the action sequences handed to the cost boundary are
  these same scaled actions; the division by \<open>u_scale\<close> is applied afterwards, to the
  actions the controller keeps.
\<close>

theorem rollout_scales_actions_for_dynamics_and_cost:
  assumes "0 < K c" and "0 < T c" and "u_min c \<noteq> None \<or> u_max c \<noteq> None"
    and "length sample = K c" and "t < T c" and "k < K c"
  shows "snd (rollout c sample) ! t = map (vscale (u_scale c)) (slice_t (clamped c sample) t)
       \<and> fst (rollout c sample) ! t =
           dynamics c (if t = 0 then initial_batch c (the (state c))
                       else fst (rollout c sample) ! (t - 1))
             (snd (rollout c sample) ! t) t
       \<and> stack1 (K c) (snd (rollout c sample)) ! k ! t
           = vscale (u_scale c) (clamped c sample ! k ! t)
       \<and> (\<forall>tc. trajectory_cost c = Some tc \<longrightarrow>
             snd (compute_total_cost_batch c sample) =
               Inr (vadd (vadd (replicate (K c) (Fin 0))
                            (tc (stack1 (K c) (fst (rollout c sample)))
                                (stack1 (K c) (snd (rollout c sample)))))
                         (perturbation_cost c sample)))
       \<and> actions (fst (compute_total_cost_batch c sample)) =
           Some (map (map (map (\<lambda>x. fdiv x (u_scale c))))
                   (stack1 (K c) (snd (rollout c sample))))"
proof -
  have a: "snd (rollout c sample) ! t = map (vscale (u_scale c)) (slice_t (clamped c sample) t)"
    using assms(5) by (simp add: rollout_eq)
  have b: "fst (rollout c sample) ! t =
           dynamics c (if t = 0 then initial_batch c (the (state c))
                       else fst (rollout c sample) ! (t - 1))
             (snd (rollout c sample) ! t) t"
    using run_states_nth[of t "[0..<T c]" c "clamped c sample" "initial_batch c (the (state c))"]
      assms(5) by (simp add: rollout_eq)
  have lc: "length (clamped c sample) = K c"
    using assms(4) by (simp add: clamped_def length_perturb)
  have d: "stack1 (K c) (snd (rollout c sample)) ! k ! t
           = vscale (u_scale c) (clamped c sample ! k ! t)"
    using assms(5,6) lc by (simp add: stack1_def rollout_eq slice_t_def)
  note e = ctcb_cost[OF assms(1-3), of sample]
  show ?thesis using a b d e by simp
qed

theorem rollout_scales_actions_for_dynamics_and_cost_witness:
  "snd (rollout (shifted ex_scaled (Vec [Fin 0])) ex_ones) ! 0 = [[Fin 2], [Fin 2]]
   \<and> stack1 2 (snd (rollout (shifted ex_scaled (Vec [Fin 0])) ex_ones)) ! 0 ! 0 = [Fin 2]
   \<and> actions (fst (compute_total_cost_batch (shifted ex_scaled (Vec [Fin 0])) ex_ones)) =
        Some (map (map (map (\<lambda>x. fdiv x (Fin 2))))
               (stack1 2 (snd (rollout (shifted ex_scaled (Vec [Fin 0])) ex_ones))))"
proof -
  have l: "length ex_ones = K (shifted ex_scaled (Vec [Fin 0]))"
    by (simp add: ex_ones_def shifted_simps ex_scaled_fields)
  show ?thesis
    using rollout_scales_actions_for_dynamics_and_cost[where c="shifted ex_scaled (Vec [Fin 0])"
      and sample=ex_ones and t=0 and k=0, OF _ _ _ l]
    by (simp add: shifted_simps ex_scaled_fields ex_scaled_clamped slice_t_def vscale_def
        u_scale_shifted)
qed

section \<open>The clamp with bounds, and a call with a single state\<close>

lemma command_U_row_length:
  assumes "well_shaped c" and "configured c" and "sample_shape c sample" and "t < T c"
  shows "length (U (fst (command c st sample)) ! t) = nu c"
proof -
  have ls: "length sample = K c" using assms(3) by (simp add: sample_shape_def)
  have T0: "0 < T c" using assms(4) by simp
  have K0: "0 < K c" using assms(2) by (simp add: configured_def)
  have r: "runs c sample" using assms(1,2) ls by (rule runs_intro)
  from command_fields[OF r, of st] obtain ct where ct: "length ct = K c"
    and u: "U (fst (command c st sample))
          = update_loop (weights (lambda c) ct) (eff_noise (shifted c st) sample) [0..<T c] (shift_U c)"
    by blast
  let ?om = "weights (lambda c) ct"
  let ?nse = "eff_noise (shifted c st) sample"
  note su = shifted_well_shaped[OF assms(1) T0]
  have lsh: "length (shift_U c ! t) = nu c" using su assms(4) by (simp add: list_all_iff)
  have lom: "length ?om = K c" using ct by (simp add: weights_length)
  have lns: "length ?nse = K c" by (rule eff_noise_shape(1)[OF assms(1,3) T0 K0 assms(4)])
  have rows: "\<forall>i<K c. length (?nse ! i ! t) = nu c"
    using eff_noise_shape(2)[OF assms(1,3) T0 _ assms(4)] by simp
  have "U (fst (command c st sample)) ! t
      = vadd (shift_U c ! t) (weighted_noise ?om ?nse (length (shift_U c ! t)) t)"
    unfolding u using assms(4) su(1) by (simp add: update_loop_nth)
  then show ?thesis
    using lsh weighted_noise_length[OF lom lns rows] by (simp add: length_vadd)
qed

lemma fclamp_within:
  "fle l h \<Longrightarrow> \<not> is_nan x \<Longrightarrow>
   fle l (fclamp (Some l) (Some h) x) \<and> fle (fclamp (Some l) (Some h) x) h"
  by (cases x; cases l; cases h) (auto simp: fclamp_def fmin2_def fmax2_def)

lemma clamped_nth:
  assumes "well_shaped c" "sample_shape c sample" "k < K c" "t < T c" "j < nu c"
  shows "clamped (shifted c st) sample ! k ! t ! j
         = fclamp (bound_at (u_min c) j) (bound_at (u_max c) j)
             (perturb (shifted c st) sample ! k ! t ! j)"
proof -
  have T0: "0 < T c" using assms(4) by simp
  note su = shifted_well_shaped[OF assms(1) T0]
  have ls: "length sample = K c" using assms(2) by (simp add: sample_shape_def)
  have su2: "\<forall>r\<in>set (shift_U c). length r = nu c" using su(2) by (simp add: list_all_iff)
  have ps: "length (perturb (shifted c st) sample ! k) = T c"
    "length (perturb (shifted c st) sample ! k ! t) = nu c"
    using perturb_shape[OF su(1) su2 _ assms(2) refl refl refl assms(3,4), of "shifted c st"]
    by (simp_all add: shifted_simps)
  have "clamped (shifted c st) sample ! k ! t
      = clamp_vec (u_min c) (u_max c) (perturb (shifted c st) sample ! k ! t)"
    using ps(1) assms(3,4) ls by (simp add: clamped_def length_perturb shifted_simps)
  then show ?thesis using ps(2) assms(5) by (simp add: clamp_vec_nth)
qed

text \<open>
  With both bounds set and ordered, every clamped perturbed action that is not NaN
  before the clamp lies between the bounds.
\<close>

lemma command_clamped_within_bounds:
  assumes "well_shaped c" and "configured c" and "sample_shape c sample"
    and "k < K c" and "t < T c" and "j < nu c"
    and "u_min c = Some lo" and "u_max c = Some hi" and "fle (lo ! j) (hi ! j)"
    and "\<not> is_nan (perturb (shifted c st) sample ! k ! t ! j)"
  shows "\<exists>pa. perturbed_action (fst (command c st sample)) = Some pa
       \<and> fle (lo ! j) (pa ! k ! t ! j) \<and> fle (pa ! k ! t ! j) (hi ! j)"
proof -
  have ls: "length sample = K c" using assms(3) by (simp add: sample_shape_def)
  have r: "runs c sample" using assms(1,2) ls by (rule runs_intro)
  from command_fields[OF r, of st]
  have pa: "perturbed_action (fst (command c st sample)) = Some (clamped (shifted c st) sample)"
    by blast
  have "clamped (shifted c st) sample ! k ! t ! j
      = fclamp (Some (lo ! j)) (Some (hi ! j)) (perturb (shifted c st) sample ! k ! t ! j)"
    using clamped_nth[OF assms(1,3,4,5,6), of st] assms(7,8) by (simp add: bound_at_def)
  then show ?thesis
    using pa fclamp_within[OF assms(9,10)] by simp
qed

lemma ex_c_eff_noise: "eff_noise (shifted ex_c st) ex_sample = [[[Fin 0]], [[Fin 0]]]"
  by (simp add: eff_noise_def clamped_def shifted_def shift_U_def roll_left_def ex_c_fields
      ex_sample_def perturb_def clamp_vec_def fclamp_def bound_at_def fmax2_def fmin2_def
      vadd_def vsub_def fsub_def Let_def)

lemma ex_c_U_after: "U (fst (command ex_c (Vec [Fin 0]) ex_sample)) = [[Fin 0]]"
proof -
  let ?c = "fst (command ex_c (Vec [Fin 0]) ex_sample)"
  have w: "weights (Fin 1) [Fin 0, Fin 0] = [Fin (1 / 2), Fin (1 / 2)]"
    using weights_Fin[of "[0, 0]" 1] by simp
  from command_update_entry[OF ex_c_well_shaped ex_c_configured ex_sample_shape,
      of 0 0 "Vec [Fin 0]"] ex_c_cost_total[of "Vec [Fin 0]"]
  have l: "length (U ?c) = 1"
    and u: "U ?c ! 0 ! 0 = fadd (Fin 0)
        (fsum (map (\<lambda>k. fmul ([Fin (1 / 2), Fin (1 / 2)] ! k)
                     ([[[Fin 0]], [[Fin 0]]] ! k ! 0 ! 0)) [0..<2]))"
    by (auto simp: ex_c_fields ex_c_eff_noise w)
  have "[0..<2] = [0, Suc 0]" by (simp add: numeral_2_eq_2 upt_rec)
  then have e: "U ?c ! 0 ! 0 = Fin 0" using u by (simp add: fsum_def)
  have r: "length (U ?c ! 0) = 1"
    using command_U_row_length[OF ex_c_well_shaped ex_c_configured ex_sample_shape,
        of 0 "Vec [Fin 0]"] by (simp add: ex_c_fields)
  from l obtain a where a: "U ?c = [a]" by (cases "U ?c") auto
  with r obtain x where "a = [x]" by (cases a) auto
  with a e show ?thesis by simp
qed

text \<open>
  The same controller called with a single state returns: one action and the rollout of
  the updated sequence.
\<close>

lemma ex_c_single_state_returns:
  "snd (command ex_c (Vec [Fin 0]) ex_sample) = Inr (Single [Fin 0], [[[Fin 0]]])"
proof -
  let ?c = "fst (command ex_c (Vec [Fin 0]) ex_sample)"
  have r: "runs ex_c ex_sample"
    by (rule runs_intro) (simp_all add: ex_c_well_shaped ex_c_configured ex_sample_def ex_c_fields)
  note s = command_snd[OF r, of "Vec [Fin 0]"]
  have f: "nx ?c = 1" "u_scale ?c = Fin 1" "F ?c = (\<lambda>s u t. s)" "step_dependency ?c = False"
    "u_per_command ?c = 1"
    unfolding s by (simp_all add: ex_c_def init_def Let_def split: prod.splits)
  have g: "snd (get_rollouts ?c (Vec [Fin 0]) 1) = Inr [[[Fin 0]]]"
    by (simp add: get_rollouts_def view_cols_def view_rows_def flatten_def chunks_def f
        ex_c_U_after dynamics_def stack1_def Let_def)
  have a: "first_actions ?c = Single [Fin 0]"
    by (simp add: first_actions_def f ex_c_U_after vscale_def Let_def)
  show ?thesis using s(1) g a by simp
qed

section \<open>Weights on a floating-point dtype\<close>





lemma command_fl_fields:
  assumes "runs c sample"
  shows "\<exists>ct. snd (compute_total_cost_batch (shifted c st) sample) = Inr ct
     \<and> length ct = K c
     \<and> cost_total (fst (command_fl d c st sample)) = Some ct
     \<and> cost_total_non_zero (fst (command_fl d c st sample))
          = Some (ensure_non_zero_fl d ct (fmin_list ct) (fdiv (Fin 1) (lambda c)))
     \<and> omega (fst (command_fl d c st sample)) = Some (weights_fl d (lambda c) ct)
     \<and> noise (fst (command_fl d c st sample)) = Some (eff_noise (shifted c st) sample)
     \<and> perturbed_action (fst (command_fl d c st sample)) = Some (clamped (shifted c st) sample)
     \<and> U (fst (command_fl d c st sample))
          = update_loop (weights_fl d (lambda c) ct) (eff_noise (shifted c st) sample) [0..<T c] (shift_U c)"
proof -
  from assms have r: "0 < K c" "0 < T c" "U c \<noteq> []" "u_min c \<noteq> None \<or> u_max c \<noteq> None"
    "lambda c \<noteq> Fin 0" "length sample = K c" "tc_ok c"
    by (simp_all add: runs_def)
  from ctcb_fields[of "shifted c st" sample] r
  obtain ct where ct:
    "compute_total_cost_batch (shifted c st) sample
       = (fst (compute_total_cost_batch (shifted c st) sample), Inr ct)"
    "cost_total (fst (compute_total_cost_batch (shifted c st) sample)) = Some ct"
    "length ct = K c"
    "U (fst (compute_total_cost_batch (shifted c st) sample)) = shift_U c"
    "noise (fst (compute_total_cost_batch (shifted c st) sample)) = Some (eff_noise (shifted c st) sample)"
    "perturbed_action (fst (compute_total_cost_batch (shifted c st) sample))
       = Some (clamped (shifted c st) sample)"
    "T (fst (compute_total_cost_batch (shifted c st) sample)) = T c"
    "lambda (fst (compute_total_cost_batch (shifted c st) sample)) = lambda c"
    by (auto simp: shifted_simps)
  have ne: "ct \<noteq> []" using ct(3) r(1) by auto
  have rl: "roll_left (U c) \<noteq> []" using r(3) by (simp add: roll_left_def split: list.splits)
  define c4 where "c4 = fst (compute_total_cost_batch (shifted c st) sample)"
  have e: "compute_total_cost_batch (c\<lparr>U := butlast (roll_left (U c)) @ [u_init c], state := Some st\<rparr>) sample
      = (c4, Inr ct)"
    using ct(1) unfolding shifted_def shift_U_def c4_def by simp
  have s: "snd (compute_total_cost_batch (shifted c st) sample) = Inr ct"
    using ct(1) by (metis snd_conv)
  have f: "fst (command_fl d c st sample) =
      c4\<lparr>cost_total_non_zero := Some (ensure_non_zero_fl d ct (fmin_list ct) (fdiv (Fin 1) (lambda c))),
         omega := Some (weights_fl d (lambda c) ct),
         U := update_loop (weights_fl d (lambda c) ct) (eff_noise (shifted c st) sample) [0..<T c] (shift_U c)\<rparr>"
    using ne r(5) ct(2-) unfolding c4_def[symmetric]
    by (simp add: command_fl_def Let_def rl e split_beta get_rollouts_frame weights_fl_def)
  show ?thesis
    using ct(2-) unfolding c4_def[symmetric]
    by (intro exI[of _ ct]) (simp add: s f)
qed











section \<open>The update of the control sequence\<close>

lemma perturb_entry:
  assumes "well_shaped c" "sample_shape c sample" "k < K c" "t < T c" "j < nu c"
  shows "perturb (shifted c st) sample ! k ! t ! j
         = (if sample_null_action c \<and> k = K c - 1 then Fin 0
            else fadd (shift_U c ! t ! j) (sample ! k ! t ! j))"
proof -
  have T0: "0 < T c" using assms(4) by simp
  note su = shifted_well_shaped[OF assms(1) T0]
  have ls: "length sample = K c" using assms(2) by (simp add: sample_shape_def)
  then have "sample ! k \<in> set sample" using assms(3) by simp
  then have tr: "length (sample ! k) = T c" "\<forall>v\<in>set (sample ! k). length v = nu c"
    using assms(2) by (auto simp: sample_shape_def list_all_iff)
  have lv: "length (sample ! k ! t) = nu c" using tr assms(4) by simp
  have lu: "length (shift_U c ! t) = nu c" using su assms(4) by (simp add: list_all_iff)
  have m: "map2 vadd (shift_U c) (sample ! k) ! t = vadd (shift_U c ! t) (sample ! k ! t)"
    using su(1) tr(1) assms(4) by simp
  have lm: "t < length (map2 vadd (shift_U c) (sample ! k))" using su(1) tr(1) assms(4) by simp
  have lvv: "j < length (vadd (shift_U c ! t) (sample ! k ! t))"
    using lv lu assms(5) by (simp add: length_vadd)
  have k: "k < length sample" using ls assms(3) by simp
  have e: "map2 vadd (shift_U c) (sample ! k) ! t ! j = fadd (shift_U c ! t ! j) (sample ! k ! t ! j)"
    unfolding m using lv lu assms(5) by (simp add: vadd_nth)
  have z: "map (map (\<lambda>x. Fin 0)) (map2 vadd (shift_U c) (sample ! k)) ! t ! j = Fin 0"
    using lm lvv unfolding nth_map[OF lm] m by simp
  note p = perturb_nth[OF k, of "shifted c st", unfolded shifted_simps]
  show ?thesis
  proof (cases "sample_null_action c \<and> k = K c - 1")
    case True
    have "perturb (shifted c st) sample ! k
        = map (map (\<lambda>x. Fin 0)) (map2 vadd (shift_U c) (sample ! k))"
      unfolding p by (rule if_P[OF True])
    then have "perturb (shifted c st) sample ! k ! t ! j = Fin 0" using z by simp
    then show ?thesis unfolding if_P[OF True] .
  next
    case False
    have "perturb (shifted c st) sample ! k = map2 vadd (shift_U c) (sample ! k)"
      unfolding p by (rule if_not_P[OF False])
    then have "perturb (shifted c st) sample ! k ! t ! j
        = fadd (shift_U c ! t ! j) (sample ! k ! t ! j)" using e by simp
    then show ?thesis unfolding if_not_P[OF False] .
  qed
qed

lemma update_loop_entry:
  assumes "well_shaped c" "sample_shape c sample" "t < T c" "j < nu c"
    and "length om = K c" "0 < K c"
  shows "length (update_loop om (eff_noise (shifted c st) sample) [0..<T c] (shift_U c)) = T c"
    and "update_loop om (eff_noise (shifted c st) sample) [0..<T c] (shift_U c) ! t ! j
       = fadd (shift_U c ! t ! j)
           (fsum (map (\<lambda>k. fmul (om ! k) (eff_noise (shifted c st) sample ! k ! t ! j)) [0..<K c]))"
proof -
  let ?nse = "eff_noise (shifted c st) sample"
  have T0: "0 < T c" using assms(3) by simp
  note su = shifted_well_shaped[OF assms(1) T0]
  have lsh: "length (shift_U c ! t) = nu c" using su assms(3) by (simp add: list_all_iff)
  have lns: "length ?nse = K c" by (rule eff_noise_shape(1)[OF assms(1,2) T0 assms(6) assms(3)])
  have rows: "\<forall>i<K c. length (?nse ! i ! t) = nu c"
    using eff_noise_shape(2)[OF assms(1,2) T0 _ assms(3)] by simp
  show "length (update_loop om ?nse [0..<T c] (shift_U c)) = T c"
    using su(1) by (simp add: update_loop_length)
  have "update_loop om ?nse [0..<T c] (shift_U c) ! t
      = vadd (shift_U c ! t) (weighted_noise om ?nse (length (shift_U c ! t)) t)"
    using assms(3) su(1) by (simp add: update_loop_nth)
  then have "update_loop om ?nse [0..<T c] (shift_U c) ! t ! j
      = fadd (shift_U c ! t ! j) (weighted_noise om ?nse (nu c) t ! j)"
    using lsh assms(4) weighted_noise_length[OF assms(5) lns rows] by (simp add: vadd_nth)
  then show "update_loop om ?nse [0..<T c] (shift_U c) ! t ! j
      = fadd (shift_U c ! t ! j) (fsum (map (\<lambda>k. fmul (om ! k) (?nse ! k ! t ! j)) [0..<K c]))"
    using weighted_noise_nth[OF assms(5) lns rows assms(4)] by simp
qed

lemma eff_noise_entry:
  assumes "well_shaped c" "sample_shape c sample" "k < K c" "t < T c" "j < nu c"
  shows "eff_noise (shifted c st) sample ! k ! t ! j
       = fsub (clamped (shifted c st) sample ! k ! t ! j) (shift_U c ! t ! j)"
proof -
  have T0: "0 < T c" using assms(4) by simp
  note su = shifted_well_shaped[OF assms(1) T0]
  have lsh: "length (shift_U c ! t) = nu c" using su assms(4) by (simp add: list_all_iff)
  note e = eff_noise_shape[OF assms(1,2) T0 assms(3,4), of st]
  show ?thesis using e(3,4) lsh assms(5) by (simp add: vsub_nth)
qed

lemma weights_nth:
  assumes "k < length ct"
  shows "ensure_non_zero ct beta f ! k = fexp (fmul (fneg f) (fsub (ct ! k) beta))"
    and "weights lam ct ! k
       = fmul (fdiv (Fin 1) (fsum (ensure_non_zero ct (fmin_list ct) (fdiv (Fin 1) lam))))
              (ensure_non_zero ct (fmin_list ct) (fdiv (Fin 1) lam) ! k)"
  using assms by (simp_all add: weights_def Let_def vscale_def ensure_non_zero_def)

lemma ensure_non_zero_length: "length (ensure_non_zero ct beta f) = length ct"
  by (simp add: ensure_non_zero_def)

lemma weights_fl_nth:
  assumes "k < length ct"
  shows "ensure_non_zero_fl d ct beta f ! k = fexp_fl d (fmul (fneg f) (fsub (ct ! k) beta))"
    and "weights_fl d lam ct ! k
       = fmul (fdiv (Fin 1) (fsum (ensure_non_zero_fl d ct (fmin_list ct) (fdiv (Fin 1) lam))))
              (ensure_non_zero_fl d ct (fmin_list ct) (fdiv (Fin 1) lam) ! k)"
  using assms by (simp_all add: weights_fl_def Let_def vscale_def ensure_non_zero_fl_def)

lemma ensure_non_zero_fl_length: "length (ensure_non_zero_fl d ct beta f) = length ct"
  by (simp add: ensure_non_zero_fl_def)

lemma weights_fl_length: "length (weights_fl d lam ct) = length ct"
  by (simp add: weights_fl_def Let_def vscale_def ensure_non_zero_fl_def)

text \<open>
  The update on a floating-point dtype: what the call leaves in \<open>U\<close> is the shifted
  sequence plus the weighted effective noise, whether or not an exponential
  underflows.
\<close>

lemma command_fl_update_entry:
  assumes "well_shaped c" and "configured c" and "sample_shape c sample"
    and "t < T c" and "j < nu c"
  shows "\<exists>ct cnz om nse pa.
           U (shifted c st) ! t = (if t + 1 < T c then U c ! (t + 1) else u_init c)
         \<and> snd (compute_total_cost_batch (shifted c st) sample) = Inr ct
         \<and> cost_total (fst (command_fl d c st sample)) = Some ct \<and> length ct = K c
         \<and> cost_total_non_zero (fst (command_fl d c st sample)) = Some cnz \<and> length cnz = K c
         \<and> omega (fst (command_fl d c st sample)) = Some om \<and> length om = K c
         \<and> noise (fst (command_fl d c st sample)) = Some nse
         \<and> perturbed_action (fst (command_fl d c st sample)) = Some pa
         \<and> (\<forall>k<K c.
               cnz ! k = fexp_fl d (fmul (fneg (fdiv (Fin 1) (lambda c))) (fsub (ct ! k) (fmin_list ct)))
             \<and> om ! k = fmul (fdiv (Fin 1) (fsum cnz)) (cnz ! k)
             \<and> pa ! k ! t ! j =
                 fclamp (bound_at (u_min c) j) (bound_at (u_max c) j)
                   (if sample_null_action c \<and> k = K c - 1 then Fin 0
                    else fadd ((if t + 1 < T c then U c ! (t + 1) else u_init c) ! j)
                              (sample ! k ! t ! j))
             \<and> nse ! k ! t ! j =
                 fsub (pa ! k ! t ! j) ((if t + 1 < T c then U c ! (t + 1) else u_init c) ! j))
         \<and> length (U (fst (command_fl d c st sample))) = T c
         \<and> U (fst (command_fl d c st sample)) ! t ! j =
             fadd ((if t + 1 < T c then U c ! (t + 1) else u_init c) ! j)
                  (fsum (map (\<lambda>k. fmul (om ! k) (nse ! k ! t ! j)) [0..<K c]))"
proof -
  let ?sh = "if t + 1 < T c then U c ! (t + 1) else u_init c"
  have ls: "length sample = K c" using assms(3) by (simp add: sample_shape_def)
  have K0: "0 < K c" using assms(2) by (simp add: configured_def)
  have r: "runs c sample" using assms(1,2) ls by (rule runs_intro)
  from command_fl_fields[OF r, of st d] obtain ct where s: "snd (compute_total_cost_batch (shifted c st) sample) = Inr ct"
    and ct: "length ct = K c"
    and cst: "cost_total (fst (command_fl d c st sample)) = Some ct"
    and cn: "cost_total_non_zero (fst (command_fl d c st sample))
          = Some (ensure_non_zero_fl d ct (fmin_list ct) (fdiv (Fin 1) (lambda c)))"
    and om: "omega (fst (command_fl d c st sample)) = Some (weights_fl d (lambda c) ct)"
    and ns: "noise (fst (command_fl d c st sample)) = Some (eff_noise (shifted c st) sample)"
    and pa: "perturbed_action (fst (command_fl d c st sample)) = Some (clamped (shifted c st) sample)"
    and u: "U (fst (command_fl d c st sample))
          = update_loop (weights_fl d (lambda c) ct) (eff_noise (shifted c st) sample) [0..<T c] (shift_U c)"
    by blast
  let ?cnz = "ensure_non_zero_fl d ct (fmin_list ct) (fdiv (Fin 1) (lambda c))"
  let ?om = "weights_fl d (lambda c) ct"
  let ?nse = "eff_noise (shifted c st) sample"
  let ?pa = "clamped (shifted c st) sample"
  have sht: "shift_U c ! t = ?sh" by (rule shift_U_nth[OF assms(1,4)])
  have shs: "U (shifted c st) ! t = ?sh" using sht by (simp add: shifted_simps)
  have lom: "length ?om = K c" using ct by (simp add: weights_fl_length)
  have lcnz: "length ?cnz = K c" using ct by (simp add: ensure_non_zero_fl_length)
  have per: "\<forall>k<K c.
               ?cnz ! k = fexp_fl d (fmul (fneg (fdiv (Fin 1) (lambda c))) (fsub (ct ! k) (fmin_list ct)))
             \<and> ?om ! k = fmul (fdiv (Fin 1) (fsum ?cnz)) (?cnz ! k)
             \<and> ?pa ! k ! t ! j =
                 fclamp (bound_at (u_min c) j) (bound_at (u_max c) j)
                   (if sample_null_action c \<and> k = K c - 1 then Fin 0
                    else fadd (?sh ! j) (sample ! k ! t ! j))
             \<and> ?nse ! k ! t ! j = fsub (?pa ! k ! t ! j) (?sh ! j)"
  proof (intro allI impI)
    fix k assume k: "k < K c"
    then have kc: "k < length ct" using ct by simp
    have a: "?cnz ! k = fexp_fl d (fmul (fneg (fdiv (Fin 1) (lambda c))) (fsub (ct ! k) (fmin_list ct)))"
      by (rule weights_fl_nth(1)[OF kc])
    have b: "?om ! k = fmul (fdiv (Fin 1) (fsum ?cnz)) (?cnz ! k)"
      by (rule weights_fl_nth(2)[OF kc])
    have c: "?pa ! k ! t ! j =
                 fclamp (bound_at (u_min c) j) (bound_at (u_max c) j)
                   (if sample_null_action c \<and> k = K c - 1 then Fin 0
                    else fadd (?sh ! j) (sample ! k ! t ! j))"
      unfolding clamped_nth[OF assms(1,3) k assms(4,5)] perturb_entry[OF assms(1,3) k assms(4,5)] sht ..
    have d: "?nse ! k ! t ! j = fsub (?pa ! k ! t ! j) (?sh ! j)"
      unfolding eff_noise_entry[OF assms(1,3) k assms(4,5)] sht ..
    show "?cnz ! k = fexp_fl d (fmul (fneg (fdiv (Fin 1) (lambda c))) (fsub (ct ! k) (fmin_list ct)))
             \<and> ?om ! k = fmul (fdiv (Fin 1) (fsum ?cnz)) (?cnz ! k)
             \<and> ?pa ! k ! t ! j =
                 fclamp (bound_at (u_min c) j) (bound_at (u_max c) j)
                   (if sample_null_action c \<and> k = K c - 1 then Fin 0
                    else fadd (?sh ! j) (sample ! k ! t ! j))
             \<and> ?nse ! k ! t ! j = fsub (?pa ! k ! t ! j) (?sh ! j)"
      using a b c d by (intro conjI)
  qed
  note ul = update_loop_entry[OF assms(1,3,4,5) lom K0, of st]
  have lu: "length (U (fst (command_fl d c st sample))) = T c" unfolding u by (rule ul(1))
  have main: "U (fst (command_fl d c st sample)) ! t ! j =
             fadd (?sh ! j) (fsum (map (\<lambda>k. fmul (?om ! k) (?nse ! k ! t ! j)) [0..<K c]))"
    unfolding u ul(2) sht ..
  show ?thesis
    apply (rule exI[of _ ct], rule exI[of _ ?cnz], rule exI[of _ ?om], rule exI[of _ ?nse],
        rule exI[of _ ?pa])
    using shs s cst ct cn lcnz om lom ns pa per lu main by (intro conjI)
qed

text \<open>
  C1. A call of \<^verbatim>\<open>command\<close> that reaches the update first shifts \<open>U\<close>: entry \<open>t\<close> of the
  sequence it hands to the cost computation is entry \<open>t + 1\<close> of the old \<open>U\<close> for
  \<open>t < T - 1\<close>, and \<open>u_init\<close> at the end. With \<open>ct\<close> the \<open>K\<close> total costs computed for
  that sequence, the call leaves in \<open>U\<close>, at timestep \<open>t\<close> and control dimension \<open>j\<close>,
  the shifted entry plus the sum over the \<open>K\<close> samples of weight times effective
  noise, where the weight of sample \<open>k\<close> is \<open>exp (- (1 / lambda) * (ct\<^sub>k - min ct))\<close>
  over the sum of these terms, and the effective noise of sample \<open>k\<close> is the
  perturbed action (shifted entry plus sampled noise, or zero for the null action),
  clamped to the bounds, minus the shifted entry.
\<close>

theorem command_shifts_and_adds_weighted_noise:
  assumes "well_shaped c" and "configured c" and "sample_shape c sample"
    and "t < T c" and "j < nu c"
  shows "\<exists>ct cnz om nse pa.
           U (shifted c st) ! t = (if t + 1 < T c then U c ! (t + 1) else u_init c)
         \<and> snd (compute_total_cost_batch (shifted c st) sample) = Inr ct
         \<and> cost_total (fst (command c st sample)) = Some ct \<and> length ct = K c
         \<and> cost_total_non_zero (fst (command c st sample)) = Some cnz \<and> length cnz = K c
         \<and> omega (fst (command c st sample)) = Some om \<and> length om = K c
         \<and> noise (fst (command c st sample)) = Some nse
         \<and> perturbed_action (fst (command c st sample)) = Some pa
         \<and> (\<forall>k<K c.
               cnz ! k = fexp (fmul (fneg (fdiv (Fin 1) (lambda c))) (fsub (ct ! k) (fmin_list ct)))
             \<and> om ! k = fmul (fdiv (Fin 1) (fsum cnz)) (cnz ! k)
             \<and> pa ! k ! t ! j =
                 fclamp (bound_at (u_min c) j) (bound_at (u_max c) j)
                   (if sample_null_action c \<and> k = K c - 1 then Fin 0
                    else fadd ((if t + 1 < T c then U c ! (t + 1) else u_init c) ! j)
                              (sample ! k ! t ! j))
             \<and> nse ! k ! t ! j =
                 fsub (pa ! k ! t ! j) ((if t + 1 < T c then U c ! (t + 1) else u_init c) ! j))
         \<and> length (U (fst (command c st sample))) = T c
         \<and> U (fst (command c st sample)) ! t ! j =
             fadd ((if t + 1 < T c then U c ! (t + 1) else u_init c) ! j)
                  (fsum (map (\<lambda>k. fmul (om ! k) (nse ! k ! t ! j)) [0..<K c]))"
proof -
  let ?sh = "if t + 1 < T c then U c ! (t + 1) else u_init c"
  have ls: "length sample = K c" using assms(3) by (simp add: sample_shape_def)
  have K0: "0 < K c" using assms(2) by (simp add: configured_def)
  have r: "runs c sample" using assms(1,2) ls by (rule runs_intro)
  from command_fields[OF r, of st] obtain ct where s: "snd (compute_total_cost_batch (shifted c st) sample) = Inr ct"
    and ct: "length ct = K c"
    and cst: "cost_total (fst (command c st sample)) = Some ct"
    and cn: "cost_total_non_zero (fst (command c st sample))
          = Some (ensure_non_zero ct (fmin_list ct) (fdiv (Fin 1) (lambda c)))"
    and om: "omega (fst (command c st sample)) = Some (weights (lambda c) ct)"
    and ns: "noise (fst (command c st sample)) = Some (eff_noise (shifted c st) sample)"
    and pa: "perturbed_action (fst (command c st sample)) = Some (clamped (shifted c st) sample)"
    and u: "U (fst (command c st sample))
          = update_loop (weights (lambda c) ct) (eff_noise (shifted c st) sample) [0..<T c] (shift_U c)"
    by blast
  let ?cnz = "ensure_non_zero ct (fmin_list ct) (fdiv (Fin 1) (lambda c))"
  let ?om = "weights (lambda c) ct"
  let ?nse = "eff_noise (shifted c st) sample"
  let ?pa = "clamped (shifted c st) sample"
  have sht: "shift_U c ! t = ?sh" by (rule shift_U_nth[OF assms(1,4)])
  have shs: "U (shifted c st) ! t = ?sh" using sht by (simp add: shifted_simps)
  have lom: "length ?om = K c" using ct by (simp add: weights_length)
  have lcnz: "length ?cnz = K c" using ct by (simp add: ensure_non_zero_length)
  have per: "\<forall>k<K c.
               ?cnz ! k = fexp (fmul (fneg (fdiv (Fin 1) (lambda c))) (fsub (ct ! k) (fmin_list ct)))
             \<and> ?om ! k = fmul (fdiv (Fin 1) (fsum ?cnz)) (?cnz ! k)
             \<and> ?pa ! k ! t ! j =
                 fclamp (bound_at (u_min c) j) (bound_at (u_max c) j)
                   (if sample_null_action c \<and> k = K c - 1 then Fin 0
                    else fadd (?sh ! j) (sample ! k ! t ! j))
             \<and> ?nse ! k ! t ! j = fsub (?pa ! k ! t ! j) (?sh ! j)"
  proof (intro allI impI)
    fix k assume k: "k < K c"
    then have kc: "k < length ct" using ct by simp
    have a: "?cnz ! k = fexp (fmul (fneg (fdiv (Fin 1) (lambda c))) (fsub (ct ! k) (fmin_list ct)))"
      by (rule weights_nth(1)[OF kc])
    have b: "?om ! k = fmul (fdiv (Fin 1) (fsum ?cnz)) (?cnz ! k)"
      by (rule weights_nth(2)[OF kc])
    have c: "?pa ! k ! t ! j =
                 fclamp (bound_at (u_min c) j) (bound_at (u_max c) j)
                   (if sample_null_action c \<and> k = K c - 1 then Fin 0
                    else fadd (?sh ! j) (sample ! k ! t ! j))"
      unfolding clamped_nth[OF assms(1,3) k assms(4,5)] perturb_entry[OF assms(1,3) k assms(4,5)] sht ..
    have d: "?nse ! k ! t ! j = fsub (?pa ! k ! t ! j) (?sh ! j)"
      unfolding eff_noise_entry[OF assms(1,3) k assms(4,5)] sht ..
    show "?cnz ! k = fexp (fmul (fneg (fdiv (Fin 1) (lambda c))) (fsub (ct ! k) (fmin_list ct)))
             \<and> ?om ! k = fmul (fdiv (Fin 1) (fsum ?cnz)) (?cnz ! k)
             \<and> ?pa ! k ! t ! j =
                 fclamp (bound_at (u_min c) j) (bound_at (u_max c) j)
                   (if sample_null_action c \<and> k = K c - 1 then Fin 0
                    else fadd (?sh ! j) (sample ! k ! t ! j))
             \<and> ?nse ! k ! t ! j = fsub (?pa ! k ! t ! j) (?sh ! j)"
      using a b c d by (intro conjI)
  qed
  note ul = update_loop_entry[OF assms(1,3,4,5) lom K0, of st]
  have lu: "length (U (fst (command c st sample))) = T c" unfolding u by (rule ul(1))
  have main: "U (fst (command c st sample)) ! t ! j =
             fadd (?sh ! j) (fsum (map (\<lambda>k. fmul (?om ! k) (?nse ! k ! t ! j)) [0..<K c]))"
    unfolding u ul(2) sht ..
  show ?thesis
    apply (rule exI[of _ ct], rule exI[of _ ?cnz], rule exI[of _ ?om], rule exI[of _ ?nse],
        rule exI[of _ ?pa])
    using shs s cst ct cn lcnz om lom ns pa per lu main by (intro conjI)
qed

lemma ex_two_fields:
  "K ex_two = 2" "T ex_two = 2" "nu ex_two = 1" "U ex_two = [[Fin 0], [Fin (1 / 2)]]"
  "u_init ex_two = [Fin 0]" "u_min ex_two = Some [Fin (- 1)]" "u_max ex_two = Some [Fin 1]"
  "lambda ex_two = Fin 1" "trajectory_cost ex_two = Some (\<lambda>sts acts. [Fin 0, Fin (ln 2)])"
  "sample_null_action ex_two = False" "noise_abs_cost ex_two = False"
  "noise_sigma_inv ex_two = [[Fin 1]]" "u_scale ex_two = Fin 1"
  by (simp_all add: ex_two_def init_def init_bounds_def Let_def)

lemma ex_two_ok: "well_shaped ex_two" "configured ex_two" "sample_shape ex_two ex_two_sample"
  by (simp_all add: well_shaped_def configured_def sample_shape_def ex_two_fields tc_ok_def
      ex_two_sample_def)

lemma upt_0_2: "[0..<2] = [0, Suc 0]"
  by (simp add: numeral_2_eq_2 upt_rec)

lemma ex_two_shift: "shift_U ex_two = [[Fin (1 / 2)], [Fin 0]]"
  by (simp add: shift_U_def roll_left_def ex_two_fields)

lemma ex_two_clamped:
  "clamped (shifted ex_two st) ex_two_sample
     = [[[Fin (1 / 2)], [Fin 1]], [[Fin (1 / 2)], [Fin (- (1 / 2))]]]"
  by (simp add: clamped_def perturb_def shifted_simps ex_two_shift ex_two_fields ex_two_sample_def
      clamp_vec_def fclamp_def bound_at_def fmax2_def fmin2_def vadd_def Let_def)

lemma ex_two_eff_noise:
  "eff_noise (shifted ex_two st) ex_two_sample = [[[Fin 0], [Fin 1]], [[Fin 0], [Fin (- (1 / 2))]]]"
  by (simp add: eff_noise_def ex_two_clamped shifted_simps ex_two_shift vsub_def fsub_def)

lemma ex_two_cost:
  "snd (compute_total_cost_batch (shifted ex_two st) ex_two_sample) = Inr [Fin 0, Fin (ln 2)]"
  by (simp add: compute_total_cost_batch_def shifted_def shift_U_def roll_left_def ex_two_fields
      ex_two_sample_def perturb_def clamp_def clamp_vec_def fclamp_def bound_at_def fmax2_def fmin2_def
      vadd_def vsub_def fsub_def vscale_def vec_mat_def sum_dim0_def fsum_def stack1_def slice_t_def
      Let_def upt_0_2 numeral_2_eq_2 split: prod.splits)

lemma ex_two_weights:
  "ensure_non_zero [Fin 0, Fin (ln 2)] (fmin_list [Fin 0, Fin (ln 2)]) (fdiv (Fin 1) (Fin 1))
     = [Fin 1, Fin (1 / 2)]"
  "weights (Fin 1) [Fin 0, Fin (ln 2)] = [Fin (2 / 3), Fin (1 / 3)]"
  by (simp_all add: weights_def ensure_non_zero_def fmin2_def fsub_def vscale_def fsum_def Let_def
      exp_minus inverse_eq_divide)

lemma ex_two_update:
  "update_loop [Fin (2 / 3), Fin (1 / 3)] [[[Fin 0], [Fin 1]], [[Fin 0], [Fin (- (1 / 2))]]]
     [0..<2] [[Fin (1 / 2)], [Fin 0]] = [[Fin (1 / 2)], [Fin (1 / 2)]]"
  by (simp add: upt_0_2 weighted_noise_def slice_t_def vscale_def sum_dim0_def vadd_def)

lemma ex_two_after:
  "cost_total (fst (command ex_two st ex_two_sample)) = Some [Fin 0, Fin (ln 2)]"
  "cost_total_non_zero (fst (command ex_two st ex_two_sample)) = Some [Fin 1, Fin (1 / 2)]"
  "omega (fst (command ex_two st ex_two_sample)) = Some [Fin (2 / 3), Fin (1 / 3)]"
  "perturbed_action (fst (command ex_two st ex_two_sample))
     = Some [[[Fin (1 / 2)], [Fin 1]], [[Fin (1 / 2)], [Fin (- (1 / 2))]]]"
  "noise (fst (command ex_two st ex_two_sample))
     = Some [[[Fin 0], [Fin 1]], [[Fin 0], [Fin (- (1 / 2))]]]"
  "U (fst (command ex_two st ex_two_sample)) = [[Fin (1 / 2)], [Fin (1 / 2)]]"
proof -
  have "runs ex_two ex_two_sample"
    by (rule runs_intro) (simp_all add: ex_two_ok ex_two_sample_def ex_two_fields)
  from command_fields[OF this, of st] obtain ct where
    s: "snd (compute_total_cost_batch (shifted ex_two st) ex_two_sample) = Inr ct"
    and f: "cost_total (fst (command ex_two st ex_two_sample)) = Some ct"
      "cost_total_non_zero (fst (command ex_two st ex_two_sample))
          = Some (ensure_non_zero ct (fmin_list ct) (fdiv (Fin 1) (lambda ex_two)))"
      "omega (fst (command ex_two st ex_two_sample)) = Some (weights (lambda ex_two) ct)"
      "noise (fst (command ex_two st ex_two_sample)) = Some (eff_noise (shifted ex_two st) ex_two_sample)"
      "perturbed_action (fst (command ex_two st ex_two_sample))
          = Some (clamped (shifted ex_two st) ex_two_sample)"
      "U (fst (command ex_two st ex_two_sample))
          = update_loop (weights (lambda ex_two) ct) (eff_noise (shifted ex_two st) ex_two_sample)
              [0..<T ex_two] (shift_U ex_two)"
    by blast
  have ct: "ct = [Fin 0, Fin (ln 2)]" using s unfolding ex_two_cost by simp
  show "cost_total (fst (command ex_two st ex_two_sample)) = Some [Fin 0, Fin (ln 2)]"
    using f(1) unfolding ct .
  show "cost_total_non_zero (fst (command ex_two st ex_two_sample)) = Some [Fin 1, Fin (1 / 2)]"
    using f(2) unfolding ct ex_two_fields ex_two_weights .
  show "omega (fst (command ex_two st ex_two_sample)) = Some [Fin (2 / 3), Fin (1 / 3)]"
    using f(3) unfolding ct ex_two_fields ex_two_weights .
  show "perturbed_action (fst (command ex_two st ex_two_sample))
       = Some [[[Fin (1 / 2)], [Fin 1]], [[Fin (1 / 2)], [Fin (- (1 / 2))]]]"
    using f(5) unfolding ex_two_clamped .
  show "noise (fst (command ex_two st ex_two_sample))
       = Some [[[Fin 0], [Fin 1]], [[Fin 0], [Fin (- (1 / 2))]]]"
    using f(4) unfolding ex_two_eff_noise .
  show "U (fst (command ex_two st ex_two_sample)) = [[Fin (1 / 2)], [Fin (1 / 2)]]"
    using f(6) unfolding ct ex_two_fields ex_two_weights ex_two_eff_noise ex_two_shift ex_two_update .
qed

theorem command_shifts_and_adds_weighted_noise_witness:
  "well_shaped ex_two \<and> configured ex_two \<and> sample_shape ex_two ex_two_sample
   \<and> (1 :: nat) < T ex_two \<and> (0 :: nat) < nu ex_two
   \<and> U ex_two = [[Fin 0], [Fin (1 / 2)]] \<and> u_init ex_two = [Fin 0]
   \<and> (\<exists>ct cnz om nse pa.
         U (shifted ex_two (Vec [Fin 0])) ! 1 = [Fin 0]
       \<and> snd (compute_total_cost_batch (shifted ex_two (Vec [Fin 0])) ex_two_sample) = Inr ct
       \<and> cost_total (fst (command ex_two (Vec [Fin 0]) ex_two_sample)) = Some ct
       \<and> cost_total_non_zero (fst (command ex_two (Vec [Fin 0]) ex_two_sample)) = Some cnz
       \<and> omega (fst (command ex_two (Vec [Fin 0]) ex_two_sample)) = Some om
       \<and> noise (fst (command ex_two (Vec [Fin 0]) ex_two_sample)) = Some nse
       \<and> perturbed_action (fst (command ex_two (Vec [Fin 0]) ex_two_sample)) = Some pa
       \<and> (\<forall>k<2.
             cnz ! k = fexp (fmul (Fin (- 1)) (fsub (ct ! k) (fmin_list ct)))
           \<and> om ! k = fmul (fdiv (Fin 1) (fsum cnz)) (cnz ! k)
           \<and> pa ! k ! 1 ! 0 =
               fclamp (Some (Fin (- 1))) (Some (Fin 1)) (fadd (Fin 0) (ex_two_sample ! k ! 1 ! 0))
           \<and> nse ! k ! 1 ! 0 = fsub (pa ! k ! 1 ! 0) (Fin 0))
       \<and> U (fst (command ex_two (Vec [Fin 0]) ex_two_sample)) ! 1 ! 0 =
           fadd (Fin 0) (fsum (map (\<lambda>k. fmul (om ! k) (nse ! k ! 1 ! 0)) [0..<2])))
   \<and> cost_total (fst (command ex_two (Vec [Fin 0]) ex_two_sample)) = Some [Fin 0, Fin (ln 2)]
   \<and> cost_total_non_zero (fst (command ex_two (Vec [Fin 0]) ex_two_sample))
       = Some [Fin 1, Fin (1 / 2)]
   \<and> omega (fst (command ex_two (Vec [Fin 0]) ex_two_sample)) = Some [Fin (2 / 3), Fin (1 / 3)]
   \<and> perturbed_action (fst (command ex_two (Vec [Fin 0]) ex_two_sample))
       = Some [[[Fin (1 / 2)], [Fin 1]], [[Fin (1 / 2)], [Fin (- (1 / 2))]]]
   \<and> noise (fst (command ex_two (Vec [Fin 0]) ex_two_sample))
       = Some [[[Fin 0], [Fin 1]], [[Fin 0], [Fin (- (1 / 2))]]]
   \<and> U (fst (command ex_two (Vec [Fin 0]) ex_two_sample)) = [[Fin (1 / 2)], [Fin (1 / 2)]]"
proof -
  have t: "(1 :: nat) < T ex_two" and j: "(0 :: nat) < nu ex_two" by (simp_all add: ex_two_fields)
  have "\<exists>ct cnz om nse pa.
         U (shifted ex_two (Vec [Fin 0])) ! 1 = [Fin 0]
       \<and> snd (compute_total_cost_batch (shifted ex_two (Vec [Fin 0])) ex_two_sample) = Inr ct
       \<and> cost_total (fst (command ex_two (Vec [Fin 0]) ex_two_sample)) = Some ct
       \<and> cost_total_non_zero (fst (command ex_two (Vec [Fin 0]) ex_two_sample)) = Some cnz
       \<and> omega (fst (command ex_two (Vec [Fin 0]) ex_two_sample)) = Some om
       \<and> noise (fst (command ex_two (Vec [Fin 0]) ex_two_sample)) = Some nse
       \<and> perturbed_action (fst (command ex_two (Vec [Fin 0]) ex_two_sample)) = Some pa
       \<and> (\<forall>k<2.
             cnz ! k = fexp (fmul (Fin (- 1)) (fsub (ct ! k) (fmin_list ct)))
           \<and> om ! k = fmul (fdiv (Fin 1) (fsum cnz)) (cnz ! k)
           \<and> pa ! k ! 1 ! 0 =
               fclamp (Some (Fin (- 1))) (Some (Fin 1)) (fadd (Fin 0) (ex_two_sample ! k ! 1 ! 0))
           \<and> nse ! k ! 1 ! 0 = fsub (pa ! k ! 1 ! 0) (Fin 0))
       \<and> U (fst (command ex_two (Vec [Fin 0]) ex_two_sample)) ! 1 ! 0 =
           fadd (Fin 0) (fsum (map (\<lambda>k. fmul (om ! k) (nse ! k ! 1 ! 0)) [0..<2]))"
    using command_shifts_and_adds_weighted_noise[OF ex_two_ok t j, of "Vec [Fin 0]"]
    by (simp add: ex_two_fields bound_at_def) blast
  then show ?thesis
    using ex_two_ok t j ex_two_after[of "Vec [Fin 0]"] ex_two_fields(4,5)
    by (intro conjI)
qed

end
